theory Spec2Isabelle
  imports Main "HOL-Library.Word"
begin

section \<open>Python values the module handles\<close>

text \<open>
  The module \<^verbatim>\<open>findmy/http.py\<close> wraps an HTTP client: a response value
  (\<^verbatim>\<open>HttpResponse\<close>) with decoders for its body, and a session manager
  (\<^verbatim>\<open>HttpSession\<close>) that owns at most one client session.

  A Python \<^verbatim>\<open>bytes\<close> object is a list of 8-bit words. A Python \<^verbatim>\<open>str\<close> is a list
  of code points, each below \<open>0x110000\<close> (\<open>is_str\<close>); the strings that only name
  things (HTTP method, URL, option names, the decimal form of an integer) are ASCII and
  are kept as HOL strings.
\<close>

type_synonym byte = "8 word"
type_synonym bytes = "byte list"
type_synonym str = "nat list"

definition is_str :: "str \<Rightarrow> bool" where
  "is_str s = list_all (\<lambda>c. c < 0x110000) s"

text \<open>The literals \<^verbatim>\<open>b"..."\<close> and \<^verbatim>\<open>"..."\<close> with ASCII contents.\<close>

definition bytes_lit :: "string \<Rightarrow> bytes" where
  "bytes_lit s = map of_char s"

definition str_lit :: "string \<Rightarrow> str" where
  "str_lit s = map of_char s"

text \<open>
  Exceptions are values, told apart by their class. \<open>LibraryError\<close> stands for an
  exception class of a library (the JSON and plist decoders, the HTTP transport), named
  by the library.
\<close>

datatype py_error =
    UnicodeDecodeError
  | UnicodeEncodeError
  | TypeError
  | IndexError
  | AttributeError
  | LibraryError string

text \<open>
  What a decoder can return: the JSON and plist decoders build dictionaries, lists and
  scalars. \<open>PyOther\<close> is any other object (a float, a date), by its printed form.
\<close>

datatype py_value =
    PyNone
  | PyBool bool
  | PyInt int
  | PyStr str
  | PyBytes bytes
  | PyOther string
  | PyList "py_value list"
  | PyDict "(str \<times> py_value) list"

text \<open>\<^verbatim>\<open>isinstance(data, dict)\<close>\<close>

fun isinstance_dict :: "py_value \<Rightarrow> bool" where
  "isinstance_dict (PyDict _) = True"
| "isinstance_dict _ = False"

text \<open>\<^verbatim>\<open>s.startswith(p)\<close>, on \<^verbatim>\<open>bytes\<close> and on \<^verbatim>\<open>str\<close>: the first \<open>len(p)\<close> items of \<open>s\<close> are \<open>p\<close>.\<close>

definition startswith :: "'a list \<Rightarrow> 'a list \<Rightarrow> bool" where
  "startswith s p = (take (length p) s = p)"

text \<open>
  \<^verbatim>\<open>str(n)\<close> for a Python \<^verbatim>\<open>int\<close> (unbounded): the decimal digits, most significant
  first, after a minus sign when \<open>n\<close> is negative.
\<close>

definition digit_char :: "nat \<Rightarrow> char" where
  "digit_char d = ''0123456789'' ! d"

function str_nat :: "nat \<Rightarrow> string" where
  "str_nat n = (if n < 10 then [digit_char n] else str_nat (n div 10) @ [digit_char (n mod 10)])"
  by pat_completeness auto
termination
  by (relation "measure (\<lambda>n. n)") auto

declare str_nat.simps [simp del]

definition str_int :: "int \<Rightarrow> string" where
  "str_int i = (if i < 0 then CHR ''-'' # str_nat (nat (- i)) else str_nat (nat i))"

section \<open>The UTF-8 codec\<close>

text \<open>
  Modelled from the spec: Python's UTF-8 codec (\<^verbatim>\<open>bytes.decode("utf-8")\<close> and
  \<^verbatim>\<open>str.encode("utf-8")\<close>, both with the strict error handler), which the source calls
  and which is not part of the repository. The spec says of \<^verbatim>\<open>text()\<close>: "decodes the
  stored bytes as UTF-8 text. Fails with a decoding error if the bytes are not valid
  UTF-8". UTF-8 is the encoding of RFC 3629: one to four bytes for a code point, the
  shortest form only, no surrogate (\<open>0xD800\<close> to \<open>0xDFFF\<close>), nothing above \<open>0x10FFFF\<close>.
  The codec works on the numeric values of the bytes.
\<close>

definition is_continuation :: "nat \<Rightarrow> bool" where
  "is_continuation b = (0x80 \<le> b \<and> b < 0xC0)"

definition push :: "'a \<Rightarrow> py_error + 'a list \<Rightarrow> py_error + 'a list" where
  "push c r = (case r of Inl e \<Rightarrow> Inl e | Inr cs \<Rightarrow> Inr (c # cs))"

fun utf8_decode :: "nat list \<Rightarrow> py_error + str" where
  "utf8_decode [] = Inr []"
| "utf8_decode (b0 # bs) =
    (if b0 < 0x80 then push b0 (utf8_decode bs)
     else if b0 < 0xC2 then Inl UnicodeDecodeError
     else if b0 < 0xE0 then
       (case bs of
          b1 # r \<Rightarrow>
            if is_continuation b1
            then push ((b0 - 0xC0) * 64 + (b1 - 0x80)) (utf8_decode r)
            else Inl UnicodeDecodeError
        | _ \<Rightarrow> Inl UnicodeDecodeError)
     else if b0 < 0xF0 then
       (case bs of
          b1 # b2 # r \<Rightarrow>
            if is_continuation b1 \<and> is_continuation b2
               \<and> \<not> (b0 = 0xE0 \<and> b1 < 0xA0) \<and> \<not> (b0 = 0xED \<and> 0xA0 \<le> b1)
            then push ((b0 - 0xE0) * 4096 + (b1 - 0x80) * 64 + (b2 - 0x80)) (utf8_decode r)
            else Inl UnicodeDecodeError
        | _ \<Rightarrow> Inl UnicodeDecodeError)
     else if b0 < 0xF5 then
       (case bs of
          b1 # b2 # b3 # r \<Rightarrow>
            if is_continuation b1 \<and> is_continuation b2 \<and> is_continuation b3
               \<and> \<not> (b0 = 0xF0 \<and> b1 < 0x90) \<and> \<not> (b0 = 0xF4 \<and> 0x90 \<le> b1)
            then push ((b0 - 0xF0) * 262144 + (b1 - 0x80) * 4096 + (b2 - 0x80) * 64 + (b3 - 0x80))
                   (utf8_decode r)
            else Inl UnicodeDecodeError
        | _ \<Rightarrow> Inl UnicodeDecodeError)
     else Inl UnicodeDecodeError)"

declare utf8_decode.simps(2) [simp del]

definition utf8_encode_char :: "nat \<Rightarrow> py_error + nat list" where
  "utf8_encode_char c =
    (if c < 0x80 then Inr [c]
     else if c < 0x800 then Inr [0xC0 + c div 64, 0x80 + c mod 64]
     else if c < 0x10000 then
       (if 0xD800 \<le> c \<and> c < 0xE000 then Inl UnicodeEncodeError
        else Inr [0xE0 + c div 4096, 0x80 + c div 64 mod 64, 0x80 + c mod 64])
     else Inr [0xF0 + c div 262144, 0x80 + c div 4096 mod 64, 0x80 + c div 64 mod 64,
               0x80 + c mod 64])"

fun utf8_encode :: "str \<Rightarrow> py_error + nat list" where
  "utf8_encode [] = Inr []"
| "utf8_encode (c # cs) =
    (case utf8_encode_char c of
       Inl e \<Rightarrow> Inl e
     | Inr bs \<Rightarrow> (case utf8_encode cs of Inl e \<Rightarrow> Inl e | Inr r \<Rightarrow> Inr (bs @ r)))"

text \<open>\<^verbatim>\<open>data.decode("utf-8")\<close> and \<^verbatim>\<open>s.encode("utf-8")\<close> on the Python objects.\<close>

definition bytes_decode_utf8 :: "bytes \<Rightarrow> py_error + str" where
  "bytes_decode_utf8 data = utf8_decode (map unat data)"

definition str_encode_utf8 :: "str \<Rightarrow> py_error + bytes" where
  "str_encode_utf8 s =
    (case utf8_encode s of Inl e \<Rightarrow> Inl e | Inr ns \<Rightarrow> Inr (map of_nat ns))"

section \<open>The response wrapper\<close>

text \<open>
  \<^verbatim>\<open>decode_plist\<close> (lines 15 to 25). \<^verbatim>\<open>plistlib.loads\<close> belongs to the Python
  library, not to the repository: it is the parameter \<open>plistlib_loads\<close>, from the bytes
  to the decoded value or the exception the library raises.
\<close>

definition plist_header :: bytes where
  "plist_header =
     bytes_lit ''<?xml version='1.0' encoding='UTF-8'?>''
     @ bytes_lit ''<!DOCTYPE plist PUBLIC '-//Apple//DTD PLIST 1.0//EN' 'http://www.apple.com/DTDs/PropertyList-1.0.dtd'>''"

definition decode_plist :: "(bytes \<Rightarrow> py_error + py_value) \<Rightarrow> bytes \<Rightarrow> py_error + py_value" where
  "decode_plist plistlib_loads data =
    (let data' = (if \<not> startswith data (bytes_lit ''<?xml'') then plist_header @ data else data)
     in plistlib_loads data')"

text \<open>
  \<^verbatim>\<open>class HttpResponse\<close> (lines 28 to 61): the two fields set by \<^verbatim>\<open>__init__\<close>; the
  property \<^verbatim>\<open>status_code\<close> is the field's selector. The method \<^verbatim>\<open>text\<close> is
  \<open>text_of\<close> here.
\<close>

record HttpResponse =
  status_code :: int
  content :: bytes

definition ok :: "HttpResponse \<Rightarrow> bool" where
  "ok r = startswith (str_int (status_code r)) ''2''"

definition text_of :: "HttpResponse \<Rightarrow> py_error + str" where
  "text_of r = bytes_decode_utf8 (content r)"

text \<open>
  \<^verbatim>\<open>json.loads\<close> is the library's decoder, the parameter \<open>json_loads\<close>: from the text
  to the decoded value or the exception the library raises.
\<close>

definition json :: "(str \<Rightarrow> py_error + py_value) \<Rightarrow> HttpResponse \<Rightarrow> py_error + py_value" where
  "json json_loads r = (case text_of r of Inl e \<Rightarrow> Inl e | Inr s \<Rightarrow> json_loads s)"

definition plist :: "(bytes \<Rightarrow> py_error + py_value) \<Rightarrow> HttpResponse \<Rightarrow> py_error + py_value" where
  "plist plistlib_loads r =
    (case decode_plist plistlib_loads (content r) of
       Inl e \<Rightarrow> Inl e
     | Inr data \<Rightarrow> if \<not> isinstance_dict data then Inl TypeError else Inr data)"

section \<open>The session manager\<close>

text \<open>
  The manager holds a reference to an \<^verbatim>\<open>aiohttp.ClientSession\<close> or \<^verbatim>\<open>None\<close>. The
  client sessions are objects of the library that the manager creates and closes, so
  they live in an explicit store: \<open>heap\<close> keeps every client session created so
  far, a session's address being its index, and \<open>sent\<close> keeps the requests handed to
  the library, oldest first. The coroutines are modelled run to completion, one at a
  time.
\<close>

text \<open>\<^verbatim>\<open>ClientSession(timeout=ClientTimeout(total=5))\<close>, and whether it has been closed.\<close>

record client_session =
  timeout_total :: int
  closed :: bool

text \<open>
  \<^verbatim>\<open>BasicAuth(login, password)\<close> belongs to the library, which refuses some pairs (a
  \<^verbatim>\<open>ValueError\<close> for a login with a colon in it): it is the parameter \<open>BasicAuth\<close>,
  from the login and the password to the credentials object, of the type \<open>'a\<close>, or
  to the exception the library raises.
\<close>

type_synonym 'a basic_auth = "string \<Rightarrow> string \<Rightarrow> py_error + 'a"

text \<open>
  The arguments of one call of \<^verbatim>\<open>ClientSession.request\<close>: the session it is called on
  (its address), the positional \<open>method\<close> and \<open>url\<close>, the keywords \<open>auth\<close> and
  \<open>ssl\<close>, and the caller's remaining keyword options, passed through.
\<close>

record ('a, 'v) session_request =
  req_session :: nat
  req_method :: string
  req_url :: string
  req_auth :: "'a option"
  req_ssl :: bool
  req_kwargs :: "(string \<times> 'v) list"

record ('a, 'v) world =
  heap :: "client_session list"
  sent :: "('a, 'v) session_request list"

text \<open>
  The library's side of a request (the network, \<^verbatim>\<open>r.status\<close> and
  \<^verbatim>\<open>r.content.read()\<close>) is a parameter: from the world and the request to the status
  code and the body read in full, or to the exception raised.
\<close>

type_synonym ('a, 'v) transport =
  "('a, 'v) world \<Rightarrow> ('a, 'v) session_request \<Rightarrow> py_error + int \<times> bytes"

text \<open>\<^verbatim>\<open>class HttpSession\<close>: the field \<^verbatim>\<open>_session\<close>, and \<^verbatim>\<open>__init__\<close> (lines 67 and 68).\<close>

record HttpSession =
  session :: "nat option"

definition HttpSession_init :: HttpSession where
  "HttpSession_init = \<lparr>session = None\<rparr>"

text \<open>\<^verbatim>\<open>_ensure_session\<close> (lines 70 to 73).\<close>

definition ensure_session ::
  "HttpSession \<Rightarrow> ('a, 'v) world \<Rightarrow> HttpSession \<times> ('a, 'v) world" where
  "ensure_session self w =
    (case session self of
       None \<Rightarrow>
         (self\<lparr>session := Some (length (heap w))\<rparr>,
          w\<lparr>heap := heap w @ [\<lparr>timeout_total = 5, closed = False\<rparr>]\<rparr>)
     | Some a \<Rightarrow> (self, w))"

text \<open>
  \<^verbatim>\<open>close\<close> (lines 75 to 80). The finaliser \<^verbatim>\<open>__del__\<close> (lines 82 to 94) only
  schedules this \<^verbatim>\<open>close\<close> on a running event loop, when there is one.
\<close>

definition close :: "HttpSession \<Rightarrow> ('a, 'v) world \<Rightarrow> HttpSession \<times> ('a, 'v) world" where
  "close self w =
    (case session self of
       Some a \<Rightarrow>
         (self\<lparr>session := None\<rparr>,
          w\<lparr>heap := (heap w)[a := (heap w ! a)\<lparr>closed := True\<rparr>]\<rparr>)
     | None \<Rightarrow> (self, w))"

text \<open>\<^verbatim>\<open>t[i]\<close> on a tuple: \<^verbatim>\<open>IndexError\<close> past its end.\<close>

definition tuple_item :: "'b list \<Rightarrow> nat \<Rightarrow> py_error + 'b" where
  "tuple_item t i = (if i < length t then Inr (t ! i) else Inl IndexError)"

text \<open>
  Lines 109 to 111 of \<^verbatim>\<open>request\<close>: \<open>basic_auth\<close> from \<open>auth\<close>. The parameter
  \<open>auth\<close> is \<^verbatim>\<open>None\<close> or a tuple of strings, of any length. Python evaluates
  \<open>auth[0]\<close>, then \<open>auth[1]\<close>, then calls \<open>BasicAuth\<close> on the two.
\<close>

definition basic_auth_of :: "'a basic_auth \<Rightarrow> string list option \<Rightarrow> py_error + 'a option" where
  "basic_auth_of BasicAuth auth =
    (case auth of
       None \<Rightarrow> Inr None
     | Some t \<Rightarrow>
         (case tuple_item t 0 of
            Inl e \<Rightarrow> Inl e
          | Inr login \<Rightarrow>
              (case tuple_item t 1 of
                 Inl e \<Rightarrow> Inl e
               | Inr password \<Rightarrow>
                   (case BasicAuth login password of
                      Inl e \<Rightarrow> Inl e
                    | Inr credentials \<Rightarrow> Inr (Some credentials)))))"

text \<open>
  A call \<^verbatim>\<open>request(method, url, auth=..., **kwargs)\<close> whose keyword options name a
  parameter that the call has already given (\<open>self\<close>, \<open>method\<close>, \<open>url\<close>,
  \<open>auth\<close>) does not bind: Python raises \<^verbatim>\<open>TypeError\<close> before the body of
  \<^verbatim>\<open>request\<close> runs.
\<close>

definition rebinds_parameter :: "(string \<times> 'v) list \<Rightarrow> bool" where
  "rebinds_parameter kwargs =
     list_ex (\<lambda>k. k \<in> set [''self'', ''method'', ''url'', ''auth'']) (map fst kwargs)"

text \<open>
  \<^verbatim>\<open>request\<close> (lines 96 to 120), with the binding of its arguments in front.
  \<open>kwargs\<close> holds the keyword options other than \<open>auth\<close>. The call of the library
  names \<open>ssl\<close> itself and unpacks \<open>kwargs\<close> beside it: an option \<open>ssl\<close> of the
  caller's is a \<^verbatim>\<open>TypeError\<close> of that call, raised after the session has been ensured
  and \<open>basic_auth\<close> built, and before the library is entered. With \<^verbatim>\<open>_session\<close> still
  \<^verbatim>\<open>None\<close>, the attribute \<^verbatim>\<open>request\<close> would be missing.
\<close>

definition request ::
  "'a basic_auth \<Rightarrow> ('a, 'v) transport \<Rightarrow> HttpSession \<Rightarrow> ('a, 'v) world \<Rightarrow> string \<Rightarrow> string
     \<Rightarrow> string list option \<Rightarrow> (string \<times> 'v) list
     \<Rightarrow> HttpSession \<times> ('a, 'v) world \<times> (py_error + HttpResponse)" where
  "request BasicAuth transport self w method url auth kwargs =
    (if rebinds_parameter kwargs then (self, w, Inl TypeError)
     else
       (case ensure_session self w of
          (self1, w1) \<Rightarrow>
            (case basic_auth_of BasicAuth auth of
               Inl e \<Rightarrow> (self1, w1, Inl e)
             | Inr basic_auth \<Rightarrow>
                 (case session self1 of
                    None \<Rightarrow> (self1, w1, Inl AttributeError)
                  | Some a \<Rightarrow>
                      if ''ssl'' \<in> set (map fst kwargs) then (self1, w1, Inl TypeError)
                      else
                        (let rq = \<lparr>req_session = a, req_method = method, req_url = url,
                                   req_auth = basic_auth, req_ssl = False, req_kwargs = kwargs\<rparr>;
                             w2 = w1\<lparr>sent := sent w1 @ [rq]\<rparr>
                         in case transport w1 rq of
                              Inl e \<Rightarrow> (self1, w2, Inl e)
                            | Inr (status, body) \<Rightarrow>
                                (self1, w2, Inr \<lparr>status_code = status, content = body\<rparr>))))))"

text \<open>
  \<^verbatim>\<open>get\<close> and \<^verbatim>\<open>post\<close> (lines 122 to 128). Their keyword options are handed to
  \<^verbatim>\<open>request\<close>, where Python binds the option \<open>auth\<close>, when given, to the parameter
  of that name: here it is an argument of its own, \<^verbatim>\<open>None\<close> when the option is absent.
\<close>

definition get ::
  "'a basic_auth \<Rightarrow> ('a, 'v) transport \<Rightarrow> HttpSession \<Rightarrow> ('a, 'v) world \<Rightarrow> string
     \<Rightarrow> string list option \<Rightarrow> (string \<times> 'v) list
     \<Rightarrow> HttpSession \<times> ('a, 'v) world \<times> (py_error + HttpResponse)" where
  "get BasicAuth transport self w url auth kwargs =
     request BasicAuth transport self w ''GET'' url auth kwargs"

definition post ::
  "'a basic_auth \<Rightarrow> ('a, 'v) transport \<Rightarrow> HttpSession \<Rightarrow> ('a, 'v) world \<Rightarrow> string
     \<Rightarrow> string list option \<Rightarrow> (string \<times> 'v) list
     \<Rightarrow> HttpSession \<times> ('a, 'v) world \<times> (py_error + HttpResponse)" where
  "post BasicAuth transport self w url auth kwargs =
     request BasicAuth transport self w ''POST'' url auth kwargs"

text \<open>
  A caller's use of one manager: a sequence of calls, each run on the state the one
  before left.
\<close>

datatype 'v call =
    EnsureSession
  | Close
  | Request string string "string list option" "(string \<times> 'v) list"
  | Get string "string list option" "(string \<times> 'v) list"
  | Post string "string list option" "(string \<times> 'v) list"

fun step ::
  "'a basic_auth \<Rightarrow> ('a, 'v) transport \<Rightarrow> HttpSession \<times> ('a, 'v) world \<Rightarrow> 'v call
     \<Rightarrow> HttpSession \<times> ('a, 'v) world" where
  "step BasicAuth transport (self, w) EnsureSession = ensure_session self w"
| "step BasicAuth transport (self, w) Close = close self w"
| "step BasicAuth transport (self, w) (Request method url auth kwargs) =
     (case request BasicAuth transport self w method url auth kwargs of
        (self', w', _) \<Rightarrow> (self', w'))"
| "step BasicAuth transport (self, w) (Get url auth kwargs) =
     (case get BasicAuth transport self w url auth kwargs of (self', w', _) \<Rightarrow> (self', w'))"
| "step BasicAuth transport (self, w) (Post url auth kwargs) =
     (case post BasicAuth transport self w url auth kwargs of (self', w', _) \<Rightarrow> (self', w'))"

definition run ::
  "'a basic_auth \<Rightarrow> ('a, 'v) transport \<Rightarrow> HttpSession \<times> ('a, 'v) world \<Rightarrow> 'v call list
     \<Rightarrow> HttpSession \<times> ('a, 'v) world" where
  "run BasicAuth transport st calls = foldl (step BasicAuth transport) st calls"

text \<open>
  The client sessions created since the heap had \<open>n\<close> objects that are not closed:
  the live handles of a manager that started with a heap of \<open>n\<close> objects.
\<close>

definition live :: "nat \<Rightarrow> ('a, 'v) world \<Rightarrow> nat list" where
  "live n w = filter (\<lambda>a. \<not> closed (heap w ! a)) [n..<length (heap w)]"

text \<open>
  The manager's reference and its live handles: no live handle without a reference,
  and with a reference that one handle only.
\<close>

definition single_handle :: "nat \<Rightarrow> HttpSession \<Rightarrow> ('a, 'v) world \<Rightarrow> bool" where
  "single_handle n self w =
     (n \<le> length (heap w) \<and> live n w = (case session self of None \<Rightarrow> [] | Some a \<Rightarrow> [a]))"

section \<open>The response wrapper: status\<close>

lemma str_nat_nonempty: "str_nat n \<noteq> []"
  by (subst str_nat.simps) simp

lemma digit_char_two: "d < 10 \<Longrightarrow> (digit_char d = CHR ''2'') = (d = 2)"
proof -
  assume "d < 10"
  then have "d = 0 \<or> d = 1 \<or> d = 2 \<or> d = 3 \<or> d = 4 \<or> d = 5 \<or> d = 6
    \<or> d = 7 \<or> d = 8 \<or> d = 9"
    by arith
  then show ?thesis
    by (elim disjE) (simp_all add: digit_char_def)
qed

lemma hd_str_nat:
  "(hd (str_nat n) = CHR ''2'') = (\<exists>k. 2 * 10 ^ k \<le> n \<and> n < 3 * 10 ^ k)"
proof (induction n rule: str_nat.induct)
  case (1 n)
  show ?case
  proof (cases "n < 10")
    case True
    have "(\<exists>k. 2 * 10 ^ k \<le> n \<and> n < 3 * 10 ^ k) = (n = 2)"
    proof
      assume "\<exists>k. 2 * 10 ^ k \<le> n \<and> n < 3 * 10 ^ k"
      then obtain k where k: "2 * 10 ^ k \<le> n" "n < 3 * 10 ^ k" by blast
      have "k = 0"
      proof (rule ccontr)
        assume "k \<noteq> 0"
        then obtain j where "k = Suc j" by (cases k) auto
        with k(1) have "20 * 10 ^ j \<le> n" by simp
        moreover have "(1::nat) \<le> 10 ^ j" by simp
        ultimately show False using True by linarith
      qed
      with k show "n = 2" by simp
    next
      assume "n = 2"
      then have "2 * 10 ^ 0 \<le> n \<and> n < 3 * 10 ^ 0" by simp
      then show "\<exists>k. 2 * 10 ^ k \<le> n \<and> n < 3 * 10 ^ k" by blast
    qed
    moreover have "str_nat n = [digit_char n]" using True by (subst str_nat.simps) simp
    ultimately show ?thesis using True by (simp add: digit_char_two)
  next
    case False
    have eq: "str_nat n = str_nat (n div 10) @ [digit_char (n mod 10)]"
      using False by (subst str_nat.simps) simp
    have ne: "str_nat (n div 10) \<noteq> []" by (subst str_nat.simps) simp
    have "(\<exists>k. 2 * 10 ^ k \<le> n \<and> n < 3 * 10 ^ k) = (\<exists>k. 2 * 10 ^ k \<le> n div 10 \<and> n div 10 < 3 * 10 ^ k)"
    proof
      assume "\<exists>k. 2 * 10 ^ k \<le> n \<and> n < 3 * 10 ^ k"
      then obtain k where k: "2 * 10 ^ k \<le> n" "n < 3 * 10 ^ k" by blast
      have "k \<noteq> 0" using k False by (cases k) auto
      then obtain j where j: "k = Suc j" by (cases k) auto
      from k j have "2 * 10 ^ j \<le> n div 10 \<and> n div 10 < 3 * 10 ^ j" by auto
      then show "\<exists>k. 2 * 10 ^ k \<le> n div 10 \<and> n div 10 < 3 * 10 ^ k" by blast
    next
      assume "\<exists>k. 2 * 10 ^ k \<le> n div 10 \<and> n div 10 < 3 * 10 ^ k"
      then obtain k where k: "2 * 10 ^ k \<le> n div 10" "n div 10 < 3 * 10 ^ k" by blast
      then have "2 * 10 ^ Suc k \<le> n \<and> n < 3 * 10 ^ Suc k" by auto
      then show "\<exists>k. 2 * 10 ^ k \<le> n \<and> n < 3 * 10 ^ k" by blast
    qed
    with "1.IH" [OF False] eq ne show ?thesis by simp
  qed
qed


lemma ok_nonneg:
  assumes "0 \<le> status_code r"
  shows "ok r = (hd (str_nat (nat (status_code r))) = CHR ''2'')"
proof -
  obtain c cs where "str_nat (nat (status_code r)) = c # cs"
    using str_nat_nonempty [of "nat (status_code r)"] by (cases "str_nat (nat (status_code r))") auto
  with assms show ?thesis
    by (simp add: ok_def startswith_def str_int_def)
qed

lemma ok_negative: "status_code r < 0 \<Longrightarrow> \<not> ok r"
  by (simp add: ok_def startswith_def str_int_def)

lemma ok_leading_digit:
  "ok r = (\<exists>k. 2 * 10 ^ k \<le> status_code r \<and> status_code r < 3 * 10 ^ k)"
proof (cases "0 \<le> status_code r")
  case True
  then obtain n where n: "status_code r = int n"
    using nonneg_int_cases by blast
  have "(\<exists>k. 2 * 10 ^ k \<le> int n \<and> int n < 3 * 10 ^ k) = (\<exists>k. 2 * 10 ^ k \<le> n \<and> n < 3 * 10 ^ k)"
  proof -
    have "\<And>k. (2 * 10 ^ k \<le> int n) = (2 * 10 ^ k \<le> n)"
      by (metis of_nat_le_iff of_nat_mult of_nat_numeral of_nat_power)
    moreover have "\<And>k. (int n < 3 * 10 ^ k) = (n < 3 * 10 ^ k)"
      by (metis of_nat_less_iff of_nat_mult of_nat_numeral of_nat_power)
    ultimately show ?thesis by simp
  qed
  with True n show ?thesis
    by (simp add: ok_nonneg hd_str_nat)
next
  case False
  then have neg: "status_code r < 0" by simp
  have "\<And>k. \<not> (2 * 10 ^ k \<le> status_code r)"
  proof
    fix k
    assume "2 * 10 ^ k \<le> status_code r"
    moreover have "(0::int) \<le> 2 * 10 ^ k" by simp
    ultimately show False using neg by linarith
  qed
  with ok_negative [OF neg] show ?thesis by simp
qed

lemma ok_three_digits:
  assumes "100 \<le> status_code r" and "status_code r \<le> 999"
  shows "ok r = (200 \<le> status_code r \<and> status_code r \<le> 299)"
proof
  assume "ok r"
  then obtain k where k: "2 * 10 ^ k \<le> status_code r" "status_code r < 3 * 10 ^ k"
    using ok_leading_digit by blast
  have "k = 2"
  proof (rule ccontr)
    assume "k \<noteq> 2"
    then consider "k = 0" | "k = 1" | "3 \<le> k" by linarith
    then show False
    proof cases
      case 1 with k assms show False by simp
    next
      case 2 with k assms show False by simp
    next
      case 3
      then obtain j where "k = 3 + j" using le_Suc_ex by blast
      then have "2 * 10 ^ k = 2000 * (10::int) ^ j" by (simp add: power_add)
      moreover have "(1::int) \<le> 10 ^ j" by simp
      ultimately show False using k(1) assms(2) by linarith
    qed
  qed
  with k show "200 \<le> status_code r \<and> status_code r \<le> 299" by simp
next
  assume "200 \<le> status_code r \<and> status_code r \<le> 299"
  then have "2 * 10 ^ 2 \<le> status_code r \<and> status_code r < 3 * 10 ^ 2" by simp
  then show "ok r" using ok_leading_digit by blast
qed

text \<open>
  On the status codes of three digits, \<open>ok\<close> is the class 2xx (\<open>ok_three_digits\<close>);
  on every integer it is "the decimal form starts with the digit 2"
  (\<open>ok_leading_digit\<close>), which also holds of 2, of 20 to 29 and of 2000 to 2999.
\<close>

text \<open>
  Claim C1: \<open>ok\<close> is true if and only if the status code lies in 200 to 299.
  The docstring of \<open>ok\<close> says the same ("2xx"), and the code does not keep to it:
  a response built with the status code 2000, outside the range, is \<open>ok\<close>.
\<close>

theorem ok_outside_2xx:
  "ok \<lparr>status_code = 2000, content = []\<rparr> \<and> \<not> (200 \<le> (2000::int) \<and> (2000::int) \<le> 299)"
  by (simp add: ok_def startswith_def str_int_def digit_char_def str_nat.simps)

section \<open>The UTF-8 codec: decoding and encoding are inverse\<close>

lemma utf8_decode_1:
  "b0 < 0x80 \<Longrightarrow> utf8_decode (b0 # bs) = push b0 (utf8_decode bs)"
  by (simp add: utf8_decode.simps(2))

lemma utf8_decode_2:
  "0xC2 \<le> b0 \<Longrightarrow> b0 < 0xE0 \<Longrightarrow> is_continuation b1 \<Longrightarrow>
   utf8_decode (b0 # b1 # r) = push ((b0 - 0xC0) * 64 + (b1 - 0x80)) (utf8_decode r)"
  by (simp add: utf8_decode.simps(2))

lemma utf8_decode_3:
  "0xE0 \<le> b0 \<Longrightarrow> b0 < 0xF0 \<Longrightarrow> is_continuation b1 \<Longrightarrow> is_continuation b2 \<Longrightarrow>
   \<not> (b0 = 0xE0 \<and> b1 < 0xA0) \<Longrightarrow> \<not> (b0 = 0xED \<and> 0xA0 \<le> b1) \<Longrightarrow>
   utf8_decode (b0 # b1 # b2 # r)
     = push ((b0 - 0xE0) * 4096 + (b1 - 0x80) * 64 + (b2 - 0x80)) (utf8_decode r)"
  by (simp add: utf8_decode.simps(2))

lemma utf8_decode_4:
  "0xF0 \<le> b0 \<Longrightarrow> b0 < 0xF5 \<Longrightarrow> is_continuation b1 \<Longrightarrow> is_continuation b2 \<Longrightarrow>
   is_continuation b3 \<Longrightarrow> \<not> (b0 = 0xF0 \<and> b1 < 0x90) \<Longrightarrow> \<not> (b0 = 0xF4 \<and> 0x90 \<le> b1) \<Longrightarrow>
   utf8_decode (b0 # b1 # b2 # b3 # r)
     = push ((b0 - 0xF0) * 262144 + (b1 - 0x80) * 4096 + (b2 - 0x80) * 64 + (b3 - 0x80))
         (utf8_decode r)"
  by (simp add: utf8_decode.simps(2))

lemma is_continuation_mod: "is_continuation (0x80 + n mod 64)"
proof -
  have "n mod 64 < 64" by simp
  then show ?thesis unfolding is_continuation_def by linarith
qed

lemma div_4096: "(c::nat) div 4096 = c div 64 div 64"
  by (simp add: div_mult2_eq)

lemma div_262144: "(c::nat) div 262144 = c div 64 div 64 div 64"
  by (simp add: div_mult2_eq)

lemma decode_encode_char:
  assumes "c < 0x110000" and "utf8_encode_char c = Inr bs"
  shows "utf8_decode (bs @ r) = push c (utf8_decode r)"
proof -
  define q1 where "q1 = c div 64"
  define q2 where "q2 = q1 div 64"
  define q3 where "q3 = q2 div 64"
  define d0 where "d0 = c mod 64"
  define d1 where "d1 = q1 mod 64"
  define d2 where "d2 = q2 mod 64"
  have c: "c = q1 * 64 + d0" and q: "q1 = q2 * 64 + d1" and p: "q2 = q3 * 64 + d2"
    and lt: "d0 < 64" "d1 < 64" "d2 < 64"
    by (simp_all add: q1_def q2_def q3_def d0_def d1_def d2_def)
  consider "c < 0x80" | "0x80 \<le> c" "c < 0x800" | "0x800 \<le> c" "c < 0x10000" | "0x10000 \<le> c"
    by linarith
  then show ?thesis
  proof cases
    case 1
    with assms(2) have "bs = [c]" by (simp add: utf8_encode_char_def)
    with 1 show ?thesis by (simp add: utf8_decode_1)
  next
    case 2
    with assms(2) have bs: "bs = [0xC0 + q1, 0x80 + d0]"
      by (simp add: utf8_encode_char_def q1_def d0_def)
    from 2 c lt have r: "0xC2 \<le> 0xC0 + q1" "0xC0 + q1 < 0xE0" by linarith+
    have k: "is_continuation (0x80 + d0)" unfolding d0_def by (rule is_continuation_mod)
    from utf8_decode_2 [OF r k, of r] bs c show ?thesis
      by simp
  next
    case 3
    with assms(2) have s: "\<not> (0xD800 \<le> c \<and> c < 0xE000)"
      and bs: "bs = [0xE0 + q2, 0x80 + d1, 0x80 + d0]"
      by (auto simp: utf8_encode_char_def div_4096 q1_def q2_def d1_def d0_def split: if_splits)
    from 3 c q lt have r: "0xE0 \<le> 0xE0 + q2" "0xE0 + q2 < 0xF0" by linarith+
    have k: "is_continuation (0x80 + d1)" "is_continuation (0x80 + d0)"
      unfolding d1_def d0_def by (rule is_continuation_mod)+
    have a: "\<not> (0xE0 + q2 = 0xE0 \<and> 0x80 + d1 < 0xA0)"
      using 3 c q lt by linarith
    have b: "\<not> (0xE0 + q2 = 0xED \<and> 0xA0 \<le> 0x80 + d1)"
      using s 3 c q lt by linarith
    have v: "q2 * 4096 + d1 * 64 + d0 = c"
      using c q by linarith
    from utf8_decode_3 [OF r k a b, of r] bs v show ?thesis
      by simp
  next
    case 4
    with assms(2) have bs: "bs = [0xF0 + q3, 0x80 + d2, 0x80 + d1, 0x80 + d0]"
      by (simp add: utf8_encode_char_def div_4096 div_262144 q1_def q2_def q3_def d2_def d1_def d0_def)
    from assms(1) c q p lt have r: "0xF0 \<le> 0xF0 + q3" "0xF0 + q3 < 0xF5" by linarith+
    have k: "is_continuation (0x80 + d2)" "is_continuation (0x80 + d1)" "is_continuation (0x80 + d0)"
      unfolding d2_def d1_def d0_def by (rule is_continuation_mod)+
    have a: "\<not> (0xF0 + q3 = 0xF0 \<and> 0x80 + d2 < 0x90)"
      using 4 c q p lt by linarith
    have b: "\<not> (0xF0 + q3 = 0xF4 \<and> 0x90 \<le> 0x80 + d2)"
      using assms(1) c q p lt by linarith
    have v: "q3 * 262144 + d2 * 4096 + d1 * 64 + d0 = c"
      using c q p by linarith
    from utf8_decode_4 [OF r k a b, of r] bs v show ?thesis
      by simp
  qed
qed


lemma push_Inr: "(push c r = Inr s) = (\<exists>s'. r = Inr s' \<and> s = c # s')"
  by (cases r) (auto simp: push_def)

lemma utf8_encode_Cons:
  "utf8_encode_char c = Inr bs \<Longrightarrow> utf8_encode cs = Inr r \<Longrightarrow> utf8_encode (c # cs) = Inr (bs @ r)"
  by simp

lemma decode_encode:
  "is_str s \<Longrightarrow> utf8_encode s = Inr ns \<Longrightarrow> utf8_decode ns = Inr s"
proof (induction s arbitrary: ns)
  case Nil
  then show ?case by simp
next
  case (Cons c cs)
  from Cons.prems(2) obtain bs r where bs: "utf8_encode_char c = Inr bs"
    and r: "utf8_encode cs = Inr r" and ns: "ns = bs @ r"
    by (auto split: sum.splits)
  from Cons.prems(1) have c: "c < 0x110000" and cs: "is_str cs" by (simp_all add: is_str_def)
  from Cons.IH [OF cs r] have "utf8_decode r = Inr cs" .
  with decode_encode_char [OF c bs, of r] ns show ?case by (simp add: push_def)
qed

lemma encode_char_bytes:
  assumes "c < 0x110000" and "utf8_encode_char c = Inr bs"
  shows "list_all (\<lambda>n. n < 256) bs"
proof -
  have "c mod 64 < 64" "c div 64 mod 64 < 64" "c div 4096 mod 64 < 64" by simp_all
  moreover have "c < 0x800 \<Longrightarrow> c div 64 < 32" by linarith
  moreover have "c < 0x10000 \<Longrightarrow> c div 4096 < 16" by linarith
  moreover from assms(1) have "c div 262144 < 5" by linarith
  ultimately show ?thesis using assms(2)
    by (auto simp: utf8_encode_char_def split: if_splits)
qed

lemma encode_bytes:
  "is_str s \<Longrightarrow> utf8_encode s = Inr ns \<Longrightarrow> list_all (\<lambda>n. n < 256) ns"
proof (induction s arbitrary: ns)
  case Nil
  then show ?case by simp
next
  case (Cons c cs)
  from Cons.prems(2) obtain bs r where bs: "utf8_encode_char c = Inr bs"
    and r: "utf8_encode cs = Inr r" and ns: "ns = bs @ r"
    by (auto split: sum.splits)
  from Cons.prems(1) have c: "c < 0x110000" and cs: "is_str cs" by (simp_all add: is_str_def)
  from Cons.IH [OF cs r] encode_char_bytes [OF c bs] ns show ?case by simp
qed

lemma encode_char_2:
  assumes "2 \<le> x" "x < 32" "y < 64"
  shows "utf8_encode_char (x * 64 + y) = Inr [0xC0 + x, 0x80 + y]"
proof -
  from assms have "\<not> x * 64 + y < 0x80" "x * 64 + y < 0x800" by linarith+
  with assms(3) show ?thesis by (simp add: utf8_encode_char_def)
qed

lemma divmod_64: "d < 64 \<Longrightarrow> (a * 64 + d) div 64 = a \<and> (a * 64 + d) mod 64 = (d::nat)"
  by simp

lemma encode_char_3:
  assumes "x < 16" "y < 64" "z < 64" "\<not> (x = 0 \<and> y < 32)" "\<not> (x = 13 \<and> 32 \<le> y)"
  shows "utf8_encode_char (x * 4096 + y * 64 + z) = Inr [0xE0 + x, 0x80 + y, 0x80 + z]"
proof -
  define c where "c = x * 4096 + y * 64 + z"
  define q where "q = x * 64 + y"
  have e: "c = q * 64 + z" by (simp add: c_def q_def)
  from assms(1-4) have r: "\<not> c < 0x80" "\<not> c < 0x800" "c < 0x10000"
    unfolding c_def by linarith+
  have s: "\<not> (0xD800 \<le> c \<and> c < 0xE000)"
  proof (cases "x = 13")
    case True
    with assms(5) have "y < 32" by simp
    with True assms(3) show ?thesis unfolding c_def by linarith
  next
    case False
    then have "x \<le> 12 \<or> 14 \<le> x" by linarith
    with assms(2,3) show ?thesis unfolding c_def by linarith
  qed
  from divmod_64 [OF assms(3), of q] have d: "c div 64 = q" "c mod 64 = z"
    unfolding e by simp_all
  from divmod_64 [OF assms(2), of x] have d2: "c div 4096 = x" "c div 64 mod 64 = y"
    unfolding div_4096 d q_def by simp_all
  from r s d d2 have "utf8_encode_char c = Inr [0xE0 + x, 0x80 + y, 0x80 + z]"
    by (simp add: utf8_encode_char_def)
  then show ?thesis unfolding c_def .
qed

lemma encode_char_4:
  assumes "x < 5" "y < 64" "z < 64" "t < 64" "\<not> (x = 0 \<and> y < 16)" "\<not> (x = 4 \<and> 16 \<le> y)"
  shows "utf8_encode_char (x * 262144 + y * 4096 + z * 64 + t)
           = Inr [0xF0 + x, 0x80 + y, 0x80 + z, 0x80 + t]
         \<and> x * 262144 + y * 4096 + z * 64 + t < 0x110000"
proof -
  define c where "c = x * 262144 + y * 4096 + z * 64 + t"
  define q1 where "q1 = (x * 64 + y) * 64 + z"
  define q2 where "q2 = x * 64 + y"
  have e: "c = q1 * 64 + t" and e1: "q1 = q2 * 64 + z" by (simp_all add: c_def q1_def q2_def)
  from assms(1-5) have r: "\<not> c < 0x80" "\<not> c < 0x800" "\<not> c < 0x10000"
    unfolding c_def by linarith+
  have lt: "c < 0x110000"
  proof (cases "x = 4")
    case True
    with assms(6) have "y < 16" by simp
    with True assms(3,4) show ?thesis unfolding c_def by linarith
  next
    case False
    with assms(1) have "x \<le> 3" by linarith
    with assms(2,3,4) show ?thesis unfolding c_def by linarith
  qed
  from divmod_64 [OF assms(4), of q1] have d: "c div 64 = q1" "c mod 64 = t"
    unfolding e by simp_all
  from divmod_64 [OF assms(3), of q2] have d2: "c div 4096 = q2" "c div 64 mod 64 = z"
    unfolding div_4096 d e1 by simp_all
  from divmod_64 [OF assms(2), of x] have q: "q2 div 64 = x" "q2 mod 64 = y"
    unfolding q2_def by simp_all
  have "c div 262144 = c div 4096 div 64" by (simp add: div_mult2_eq)
  with q d2(1) have d3: "c div 262144 = x" "c div 4096 mod 64 = y" by simp_all
  from r d d2 d3 have "utf8_encode_char c = Inr [0xF0 + x, 0x80 + y, 0x80 + z, 0x80 + t]"
    by (simp add: utf8_encode_char_def)
  with lt show ?thesis unfolding c_def by simp
qed

lemma unat_byte: "n < 256 \<Longrightarrow> unat (word_of_nat n :: byte) = n"
  by (simp add: unat_of_nat)

lemma byte_unat: "word_of_nat (unat (w :: byte)) = w"
  by simp


lemma utf8_decode_invalid_start:
  "0x80 \<le> b0 \<and> b0 < 0xC2 \<or> 0xF5 \<le> b0 \<Longrightarrow> utf8_decode (b0 # bs) = Inl UnicodeDecodeError"
  by (auto simp: utf8_decode.simps(2))

lemma utf8_decode_2_inv:
  "0xC2 \<le> b0 \<Longrightarrow> b0 < 0xE0 \<Longrightarrow> utf8_decode (b0 # bs) = Inr s \<Longrightarrow>
   \<exists>b1 r. bs = b1 # r \<and> is_continuation b1"
  by (auto simp: utf8_decode.simps(2) split: list.splits if_splits)

lemma utf8_decode_3_inv:
  "0xE0 \<le> b0 \<Longrightarrow> b0 < 0xF0 \<Longrightarrow> utf8_decode (b0 # bs) = Inr s \<Longrightarrow>
   \<exists>b1 b2 r. bs = b1 # b2 # r \<and> is_continuation b1 \<and> is_continuation b2
     \<and> \<not> (b0 = 0xE0 \<and> b1 < 0xA0) \<and> \<not> (b0 = 0xED \<and> 0xA0 \<le> b1)"
  by (simp add: utf8_decode.simps(2) split: list.splits if_splits)

lemma utf8_decode_4_inv:
  "0xF0 \<le> b0 \<Longrightarrow> b0 < 0xF5 \<Longrightarrow> utf8_decode (b0 # bs) = Inr s \<Longrightarrow>
   \<exists>b1 b2 b3 r. bs = b1 # b2 # b3 # r \<and> is_continuation b1 \<and> is_continuation b2
     \<and> is_continuation b3 \<and> \<not> (b0 = 0xF0 \<and> b1 < 0x90) \<and> \<not> (b0 = 0xF4 \<and> 0x90 \<le> b1)"
  by (simp add: utf8_decode.simps(2) split: list.splits if_splits)

lemma continuation_offset: "is_continuation b \<Longrightarrow> \<exists>y. b = 0x80 + y \<and> y < 64"
proof -
  assume "is_continuation b"
  then have "b = 0x80 + (b - 0x80) \<and> b - 0x80 < 64" unfolding is_continuation_def by linarith
  then show ?thesis by blast
qed

lemma decode_step:
  assumes "utf8_decode (b0 # bs) = Inr s"
  shows "\<exists>c cs r s'. b0 # bs = cs @ r \<and> cs \<noteq> [] \<and> s = c # s' \<and> utf8_decode r = Inr s'
           \<and> c < 0x110000 \<and> utf8_encode_char c = Inr cs"
proof -
  consider "b0 < 0x80" | "0x80 \<le> b0 \<and> b0 < 0xC2 \<or> 0xF5 \<le> b0" | "0xC2 \<le> b0" "b0 < 0xE0"
    | "0xE0 \<le> b0" "b0 < 0xF0" | "0xF0 \<le> b0" "b0 < 0xF5"
    by linarith
  then show ?thesis
  proof cases
    case 1
    with assms obtain s' where "utf8_decode bs = Inr s'" "s = b0 # s'"
      by (auto simp: utf8_decode_1 push_Inr)
    moreover from 1 have "utf8_encode_char b0 = Inr [b0]" "b0 < 0x110000"
      by (simp_all add: utf8_encode_char_def)
    moreover have "b0 # bs = [b0] @ bs" by simp
    ultimately show ?thesis by blast
  next
    case 2
    with assms utf8_decode_invalid_start [of b0 bs] show ?thesis by simp
  next
    case 3
    from utf8_decode_2_inv [OF 3 assms] obtain b1 r where bs: "bs = b1 # r" and k: "is_continuation b1"
      by blast
    from continuation_offset [OF k] obtain y where y: "b1 = 0x80 + y" "y < 64" by blast
    define x where "x = b0 - 0xC0"
    from 3 have x: "b0 = 0xC0 + x" "2 \<le> x" "x < 32" unfolding x_def by linarith+
    from assms bs utf8_decode_2 [OF 3 k, of r] x(1) y(1)
    have "push (x * 64 + y) (utf8_decode r) = Inr s" by simp
    then obtain s' where s': "utf8_decode r = Inr s'" "s = (x * 64 + y) # s'"
      unfolding push_Inr by blast
    from encode_char_2 [OF x(2,3) y(2)] x(1) y(1)
    have "utf8_encode_char (x * 64 + y) = Inr [b0, b1]" by simp
    moreover from x y have "x * 64 + y < 0x110000" by linarith
    moreover have "b0 # bs = [b0, b1] @ r" using bs by simp
    ultimately show ?thesis using s' by blast
  next
    case 4
    from utf8_decode_3_inv [OF 4 assms] obtain b1 b2 r where bs: "bs = b1 # b2 # r"
      and k: "is_continuation b1" "is_continuation b2"
      and n: "\<not> (b0 = 0xE0 \<and> b1 < 0xA0)" "\<not> (b0 = 0xED \<and> 0xA0 \<le> b1)"
      by blast
    from continuation_offset [OF k(1)] obtain y where y: "b1 = 0x80 + y" "y < 64" by blast
    from continuation_offset [OF k(2)] obtain z where z: "b2 = 0x80 + z" "z < 64" by blast
    define x where "x = b0 - 0xE0"
    from 4 have x: "b0 = 0xE0 + x" "x < 16" unfolding x_def by linarith+
    from n x(1) y(1) have m: "\<not> (x = 0 \<and> y < 32)" "\<not> (x = 13 \<and> 32 \<le> y)" by simp_all
    from assms bs utf8_decode_3 [OF 4 k n, of r] x(1) y(1) z(1)
    have "push (x * 4096 + y * 64 + z) (utf8_decode r) = Inr s" by simp
    then obtain s' where s': "utf8_decode r = Inr s'" "s = (x * 4096 + y * 64 + z) # s'"
      unfolding push_Inr by blast
    from encode_char_3 [OF x(2) y(2) z(2) m] x(1) y(1) z(1)
    have "utf8_encode_char (x * 4096 + y * 64 + z) = Inr [b0, b1, b2]" by simp
    moreover from x y z have "x * 4096 + y * 64 + z < 0x110000" by linarith
    moreover have "b0 # bs = [b0, b1, b2] @ r" using bs by simp
    ultimately show ?thesis using s' by blast
  next
    case 5
    from utf8_decode_4_inv [OF 5 assms] obtain b1 b2 b3 r where bs: "bs = b1 # b2 # b3 # r"
      and k: "is_continuation b1" "is_continuation b2" "is_continuation b3"
      and n: "\<not> (b0 = 0xF0 \<and> b1 < 0x90)" "\<not> (b0 = 0xF4 \<and> 0x90 \<le> b1)"
      by blast
    from continuation_offset [OF k(1)] obtain y where y: "b1 = 0x80 + y" "y < 64" by blast
    from continuation_offset [OF k(2)] obtain z where z: "b2 = 0x80 + z" "z < 64" by blast
    from continuation_offset [OF k(3)] obtain t where t: "b3 = 0x80 + t" "t < 64" by blast
    define x where "x = b0 - 0xF0"
    from 5 have x: "b0 = 0xF0 + x" "x < 5" unfolding x_def by linarith+
    from n x(1) y(1) have m: "\<not> (x = 0 \<and> y < 16)" "\<not> (x = 4 \<and> 16 \<le> y)" by simp_all
    from assms bs utf8_decode_4 [OF 5 k n, of r] x(1) y(1) z(1) t(1)
    have "push (x * 262144 + y * 4096 + z * 64 + t) (utf8_decode r) = Inr s" by simp
    then obtain s' where s': "utf8_decode r = Inr s'" "s = (x * 262144 + y * 4096 + z * 64 + t) # s'"
      unfolding push_Inr by blast
    from encode_char_4 [OF x(2) y(2) z(2) t(2) m] x(1) y(1) z(1) t(1)
    have "utf8_encode_char (x * 262144 + y * 4096 + z * 64 + t) = Inr [b0, b1, b2, b3]"
      and "x * 262144 + y * 4096 + z * 64 + t < 0x110000" by simp_all
    moreover have "b0 # bs = [b0, b1, b2, b3] @ r" using bs by simp
    ultimately show ?thesis using s' by blast
  qed
qed


lemma encode_decode:
  "utf8_decode ns = Inr s \<Longrightarrow> is_str s \<and> utf8_encode s = Inr ns"
proof (induction "length ns" arbitrary: ns s rule: less_induct)
  case less
  show ?case
  proof (cases ns)
    case Nil
    with less.prems show ?thesis by (simp add: is_str_def)
  next
    case (Cons b0 bs)
    with less.prems decode_step [of b0 bs s] obtain c cs r s' where
      ns: "ns = cs @ r" and cs: "cs \<noteq> []" and s: "s = c # s'" and r: "utf8_decode r = Inr s'"
      and c: "c < 0x110000" and e: "utf8_encode_char c = Inr cs"
      by auto
    from ns cs have "length r < length ns" by simp
    from less.hyps [OF this r] have "is_str s'" and "utf8_encode s' = Inr r" by simp_all
    with s c e ns show ?thesis by (simp add: is_str_def)
  qed
qed

lemma utf8_decode_error: "utf8_decode ns = Inl e \<Longrightarrow> e = UnicodeDecodeError"
proof (induction "length ns" arbitrary: ns e rule: less_induct)
  case less
  show ?case
  proof (cases ns)
    case Nil
    with less.prems show ?thesis by simp
  next
    case (Cons b0 bs)
    have sub: "\<And>c r. push c (utf8_decode r) = Inl e \<Longrightarrow> length r < length ns \<Longrightarrow> e = UnicodeDecodeError"
    proof -
      fix c :: nat and r
      assume l: "length r < length ns" and p: "push c (utf8_decode r) = Inl e"
      from p have "utf8_decode r = Inl e" by (cases "utf8_decode r") (simp_all add: push_def)
      with less.hyps [OF l] show "e = UnicodeDecodeError" .
    qed
    from less.prems Cons show ?thesis
      by (auto simp: utf8_decode.simps(2) split: if_splits list.splits dest: sub)
  qed
qed


section \<open>The response wrapper: decoders\<close>

lemma map_unat_bytes:
  "list_all (\<lambda>n. n < 256) ns \<Longrightarrow> map unat (map word_of_nat ns :: bytes) = ns"
  by (induction ns) (simp_all add: unat_byte)

lemma map_bytes_unat: "map word_of_nat (map unat (b :: bytes)) = b"
  by (induction b) simp_all

lemma text_of_encoded:
  assumes "is_str s" and "str_encode_utf8 s = Inr b"
  shows "text_of \<lparr>status_code = sc, content = b\<rparr> = Inr s"
proof -
  from assms(2) obtain ns where ns: "utf8_encode s = Inr ns" and b: "b = map word_of_nat ns"
    by (auto simp: str_encode_utf8_def split: sum.splits)
  from map_unat_bytes [OF encode_bytes [OF assms(1) ns]] b have "map unat b = ns" by simp
  with decode_encode [OF assms(1) ns] show ?thesis
    by (simp add: text_of_def bytes_decode_utf8_def)
qed

lemma text_of_decoded:
  assumes "text_of r = Inr s"
  shows "is_str s \<and> str_encode_utf8 s = Inr (content r)"
proof -
  from assms have "utf8_decode (map unat (content r)) = Inr s"
    by (simp add: text_of_def bytes_decode_utf8_def)
  from encode_decode [OF this] map_bytes_unat [of "content r"] show ?thesis
    by (simp add: str_encode_utf8_def del: map_map)
qed

lemma text_of_error: "text_of r = Inl e \<Longrightarrow> e = UnicodeDecodeError"
  by (simp add: text_of_def bytes_decode_utf8_def utf8_decode_error)

lemma utf8_encode_total:
  "list_all (\<lambda>c. \<not> (0xD800 \<le> c \<and> c < 0xE000)) s \<Longrightarrow> \<exists>ns. utf8_encode s = Inr ns"
proof (induction s)
  case Nil
  then show ?case by simp
next
  case (Cons c cs)
  then obtain r where "utf8_encode cs = Inr r" by auto
  moreover from Cons.prems have "\<not> (0xD800 \<le> c \<and> c < 0xE000)" by simp
  then have "\<exists>bs. utf8_encode_char c = Inr bs" by (simp add: utf8_encode_char_def)
  ultimately show ?case by auto
qed

text \<open>
  Claim C5: \<open>text()\<close> of a response whose body is the UTF-8 encoding of a string
  \<open>s\<close> is \<open>s\<close>, and \<open>text()\<close> of a body that is not valid UTF-8 (the encoding of
  no string) fails with a decoding error. A string with a surrogate code point has no
  UTF-8 encoding (\<^verbatim>\<open>encode\<close> raises); every other string has one
  (\<open>utf8_encode_total\<close>).
\<close>

theorem text_utf8_roundtrip:
  "(is_str s \<and> str_encode_utf8 s = Inr b \<longrightarrow> text_of \<lparr>status_code = sc, content = b\<rparr> = Inr s)
   \<and> ((\<nexists>s. is_str s \<and> str_encode_utf8 s = Inr b) \<longrightarrow>
        text_of \<lparr>status_code = sc, content = b\<rparr> = Inl UnicodeDecodeError)"
proof (intro conjI impI)
  assume "is_str s \<and> str_encode_utf8 s = Inr b"
  then show "text_of \<lparr>status_code = sc, content = b\<rparr> = Inr s"
    using text_of_encoded by blast
next
  assume n: "\<nexists>s. is_str s \<and> str_encode_utf8 s = Inr b"
  show "text_of \<lparr>status_code = sc, content = b\<rparr> = Inl UnicodeDecodeError"
  proof (cases "text_of \<lparr>status_code = sc, content = b\<rparr>")
    case (Inl e)
    with text_of_error [OF Inl] show ?thesis by simp
  next
    case (Inr s')
    from text_of_decoded [OF Inr] have "is_str s' \<and> str_encode_utf8 s' = Inr b" by simp
    with n show ?thesis by blast
  qed
qed

theorem text_utf8_roundtrip_witness:
  "text_of \<lparr>status_code = 200, content = [0x68, 0xC3, 0xA9, 0xE2, 0x82, 0xAC, 0xF0, 0x9F, 0x98, 0x80]\<rparr>
     = Inr [0x68, 0xE9, 0x20AC, 0x1F600]
   \<and> str_encode_utf8 [0x68, 0xE9, 0x20AC, 0x1F600]
     = Inr [0x68, 0xC3, 0xA9, 0xE2, 0x82, 0xAC, 0xF0, 0x9F, 0x98, 0x80]
   \<and> text_of \<lparr>status_code = 200, content = [0xC0, 0x80]\<rparr> = Inl UnicodeDecodeError
   \<and> (\<nexists>s. is_str s \<and> str_encode_utf8 s = Inr [0xC0, 0x80])"
proof -
  let ?s = "[0x68, 0xE9, 0x20AC, 0x1F600] :: str"
  let ?b = "[0x68, 0xC3, 0xA9, 0xE2, 0x82, 0xAC, 0xF0, 0x9F, 0x98, 0x80] :: bytes"
  have e: "str_encode_utf8 ?s = Inr ?b"
    by (simp add: str_encode_utf8_def utf8_encode_char_def)
  have s: "is_str ?s" by (simp add: is_str_def)
  have d: "text_of \<lparr>status_code = 200, content = [0xC0, 0x80]\<rparr> = Inl UnicodeDecodeError"
    by (simp add: text_of_def bytes_decode_utf8_def utf8_decode.simps)
  have n: "\<nexists>s. is_str s \<and> str_encode_utf8 s = Inr [0xC0, 0x80]"
  proof
    assume "\<exists>s. is_str s \<and> str_encode_utf8 s = Inr [0xC0, 0x80]"
    then obtain s where "is_str s \<and> str_encode_utf8 s = Inr [0xC0, 0x80]" by blast
    with text_utf8_roundtrip [of s "[0xC0, 0x80]" 200]
    have "text_of \<lparr>status_code = 200, content = [0xC0, 0x80]\<rparr> = Inr s" by blast
    with d show False by simp
  qed
  from text_utf8_roundtrip [of ?s ?b 200] s e
  have "text_of \<lparr>status_code = 200, content = ?b\<rparr> = Inr ?s" by blast
  with e d n show ?thesis by blast
qed


lemma json_propagates:
  "json json_loads r = (case text_of r of Inl e \<Rightarrow> Inl e | Inr s \<Rightarrow> json_loads s)"
  by (simp add: json_def)

text \<open>
  Claim C2: \<open>json()\<close> decodes the body as JSON into a mapping, and fails with a parse
  error on malformed JSON or whenever the decoded top-level value is not a mapping.
  The code returns whatever the decoder returns for the text of the body
  (\<open>json_propagates\<close>) and, unlike \<open>plist()\<close>, never looks at the kind of the value: on
  the body \<^verbatim>\<open>b"[1]"\<close> the result of \<open>json()\<close> is the decoder's result for the text
  \<^verbatim>\<open>"[1]"\<close>, which for \<^verbatim>\<open>json.loads\<close> is a list and no error.
\<close>

theorem json_returns_decoder_result:
  "json json_loads \<lparr>status_code = 200, content = bytes_lit ''[1]''\<rparr> = json_loads (str_lit ''[1]'')"
  by (simp add: json_def text_of_def bytes_decode_utf8_def bytes_lit_def str_lit_def push_def
      utf8_decode.simps)


lemma plist_header_literal:
  "plist_header = bytes_lit ''<?xml version='1.0' encoding='UTF-8'?><!DOCTYPE plist PUBLIC '-//Apple//DTD PLIST 1.0//EN' 'http://www.apple.com/DTDs/PropertyList-1.0.dtd'>''"
  by (simp add: plist_header_def bytes_lit_def)

lemma plist_header_startswith: "startswith (plist_header @ data) (bytes_lit ''<?xml'')"
  by (simp add: startswith_def plist_header_def bytes_lit_def)

text \<open>
  Claim C3: a body that begins with \<^verbatim>\<open><?xml\<close> is handed to the plist decoder as it
  is; to any other body the fixed header, an XML declaration and the plist DOCTYPE, is
  prepended first, so that a headerless fragment decodes to what the same document with
  that header in front decodes to.
\<close>

theorem decode_plist_header:
  "(startswith data (bytes_lit ''<?xml'') \<longrightarrow> decode_plist plistlib_loads data = plistlib_loads data)
   \<and> (\<not> startswith data (bytes_lit ''<?xml'') \<longrightarrow>
        decode_plist plistlib_loads data
          = plistlib_loads (bytes_lit ''<?xml version='1.0' encoding='UTF-8'?><!DOCTYPE plist PUBLIC '-//Apple//DTD PLIST 1.0//EN' 'http://www.apple.com/DTDs/PropertyList-1.0.dtd'>'' @ data)
        \<and> decode_plist plistlib_loads data
          = decode_plist plistlib_loads (bytes_lit ''<?xml version='1.0' encoding='UTF-8'?><!DOCTYPE plist PUBLIC '-//Apple//DTD PLIST 1.0//EN' 'http://www.apple.com/DTDs/PropertyList-1.0.dtd'>'' @ data))"
  unfolding plist_header_literal [symmetric]
  using plist_header_startswith [of data] by (simp add: decode_plist_def)

theorem decode_plist_header_witness:
  "(let loads = (\<lambda>d. if d = bytes_lit ''<?xml version='1.0' encoding='UTF-8'?><!DOCTYPE plist PUBLIC '-//Apple//DTD PLIST 1.0//EN' 'http://www.apple.com/DTDs/PropertyList-1.0.dtd'><plist><dict/></plist>''
                       then Inr (PyDict []) else Inl (LibraryError ''InvalidFileException''))
    in decode_plist loads (bytes_lit ''<plist><dict/></plist>'') = Inr (PyDict [])
       \<and> decode_plist loads (bytes_lit ''<?xml version='1.0' encoding='UTF-8'?><!DOCTYPE plist PUBLIC '-//Apple//DTD PLIST 1.0//EN' 'http://www.apple.com/DTDs/PropertyList-1.0.dtd'><plist><dict/></plist>'') = Inr (PyDict [])
       \<and> decode_plist loads (bytes_lit ''<?xml?><plist><dict/></plist>'')
           = Inl (LibraryError ''InvalidFileException'')
       \<and> \<not> startswith (bytes_lit ''<plist><dict/></plist>'') (bytes_lit ''<?xml''))"
proof -
  let ?frag = "bytes_lit ''<plist><dict/></plist>''"
  let ?hdr = "bytes_lit ''<?xml version='1.0' encoding='UTF-8'?><!DOCTYPE plist PUBLIC '-//Apple//DTD PLIST 1.0//EN' 'http://www.apple.com/DTDs/PropertyList-1.0.dtd'>''"
  let ?doc = "bytes_lit ''<?xml version='1.0' encoding='UTF-8'?><!DOCTYPE plist PUBLIC '-//Apple//DTD PLIST 1.0//EN' 'http://www.apple.com/DTDs/PropertyList-1.0.dtd'><plist><dict/></plist>''"
  let ?other = "bytes_lit ''<?xml?><plist><dict/></plist>''"
  let ?loads = "\<lambda>d. if d = ?doc
                       then Inr (PyDict []) else Inl (LibraryError ''InvalidFileException'')"
  have doc: "?hdr @ ?frag = ?doc" by (simp add: bytes_lit_def)
  have n: "\<not> startswith ?frag (bytes_lit ''<?xml'')"
    by (simp add: startswith_def bytes_lit_def)
  have o: "startswith ?other (bytes_lit ''<?xml'')"
    by (simp add: startswith_def bytes_lit_def)
  have ne: "?other \<noteq> ?doc" by (simp add: bytes_lit_def)
  from decode_plist_header [of ?frag ?loads] n
  have a: "decode_plist ?loads ?frag = ?loads (?hdr @ ?frag)"
    and b: "decode_plist ?loads ?frag = decode_plist ?loads (?hdr @ ?frag)"
    by blast+
  from a have c: "decode_plist ?loads ?frag = Inr (PyDict [])" unfolding doc by simp
  from b c have d: "decode_plist ?loads ?doc = Inr (PyDict [])" unfolding doc by simp
  from decode_plist_header [of ?other ?loads] o
  have "decode_plist ?loads ?other = ?loads ?other" by blast
  with ne have e: "decode_plist ?loads ?other = Inl (LibraryError ''InvalidFileException'')"
    by simp
  from n c d e show ?thesis unfolding Let_def by blast
qed

text \<open>
  Claim C4: once the plist decoder has returned a value, \<open>plist()\<close> raises a type
  error exactly when that value is not a mapping, and returns the value when it is.
\<close>

theorem plist_type_error:
  assumes "decode_plist plistlib_loads (content r) = Inr v"
  shows "((plist plistlib_loads r = Inl TypeError) = (\<not> isinstance_dict v))
         \<and> (isinstance_dict v \<longrightarrow> plist plistlib_loads r = Inr v)"
  using assms by (simp add: plist_def)

theorem plist_type_error_witness:
  "plist (\<lambda>d. Inr (PyList [PyInt 1])) \<lparr>status_code = 200, content = bytes_lit ''<plist><array><integer>1</integer></array></plist>''\<rparr>
     = Inl TypeError
   \<and> plist (\<lambda>d. Inr (PyDict [(str_lit ''a'', PyInt 1)])) \<lparr>status_code = 200, content = bytes_lit ''<plist><dict><key>a</key><integer>1</integer></dict></plist>''\<rparr>
     = Inr (PyDict [(str_lit ''a'', PyInt 1)])"
proof -
  let ?l1 = "\<lambda>d::bytes. (Inr (PyList [PyInt 1]) :: py_error + py_value)"
  let ?r1 = "\<lparr>status_code = 200, content = bytes_lit ''<plist><array><integer>1</integer></array></plist>''\<rparr>"
  let ?l2 = "\<lambda>d::bytes. (Inr (PyDict [(str_lit ''a'', PyInt 1)]) :: py_error + py_value)"
  let ?r2 = "\<lparr>status_code = 200, content = bytes_lit ''<plist><dict><key>a</key><integer>1</integer></dict></plist>''\<rparr>"
  have d1: "decode_plist ?l1 (content ?r1) = Inr (PyList [PyInt 1])"
    by (simp add: decode_plist_def)
  have d2: "decode_plist ?l2 (content ?r2) = Inr (PyDict [(str_lit ''a'', PyInt 1)])"
    by (simp add: decode_plist_def)
  from plist_type_error [OF d1] plist_type_error [OF d2] show ?thesis by simp
qed

text \<open>
  Claim C9: the decoders depend on the body only and the status properties on the
  status code only: two responses with the same body have the same \<open>text()\<close>,
  \<open>json()\<close> and \<open>plist()\<close> (value or error) whatever their status codes, and two
  responses with the same status code agree on \<open>ok\<close> whatever their bodies.
\<close>

theorem response_fields_independent:
  "(content r1 = content r2 \<longrightarrow>
      text_of r1 = text_of r2 \<and> json json_loads r1 = json json_loads r2
      \<and> plist plistlib_loads r1 = plist plistlib_loads r2)
   \<and> (status_code r1 = status_code r2 \<longrightarrow> ok r1 = ok r2)"
  by (simp add: text_of_def json_def plist_def ok_def)

theorem response_fields_independent_witness:
  "text_of \<lparr>status_code = 200, content = bytes_lit ''ab''\<rparr>
     = text_of \<lparr>status_code = 404, content = bytes_lit ''ab''\<rparr>
   \<and> json (\<lambda>s. Inr (PyStr s)) \<lparr>status_code = 200, content = bytes_lit ''ab''\<rparr>
     = json (\<lambda>s. Inr (PyStr s)) \<lparr>status_code = 404, content = bytes_lit ''ab''\<rparr>
   \<and> plist (\<lambda>d. Inr (PyBytes d)) \<lparr>status_code = 200, content = bytes_lit ''ab''\<rparr>
     = plist (\<lambda>d. Inr (PyBytes d)) \<lparr>status_code = 404, content = bytes_lit ''ab''\<rparr>
   \<and> ok \<lparr>status_code = 200, content = bytes_lit ''ab''\<rparr>
     = ok \<lparr>status_code = 200, content = bytes_lit ''cd''\<rparr>"
  using
    response_fields_independent [of "\<lparr>status_code = 200, content = bytes_lit ''ab''\<rparr>"
      "\<lparr>status_code = 404, content = bytes_lit ''ab''\<rparr>" "\<lambda>s. Inr (PyStr s)" "\<lambda>d. Inr (PyBytes d)"]
    response_fields_independent [of "\<lparr>status_code = 200, content = bytes_lit ''ab''\<rparr>"
      "\<lparr>status_code = 200, content = bytes_lit ''cd''\<rparr>" "\<lambda>s. Inr (PyStr s)" "\<lambda>d. Inr (PyBytes d)"]
  by simp

section \<open>The session manager: requests\<close>

lemma tuple_items_fail:
  "(tuple_item t 0 = Inl IndexError \<or> tuple_item t 1 = Inl IndexError) = (length t < 2)"
  by (auto simp: tuple_item_def)

lemma basic_auth_of_short:
  "length t < 2 \<Longrightarrow> basic_auth_of BasicAuth (Some t) = Inl IndexError"
  by (auto simp: basic_auth_of_def tuple_item_def)

lemma basic_auth_of_pair:
  "2 \<le> length t \<Longrightarrow>
   basic_auth_of BasicAuth (Some t) = map_sum id Some (BasicAuth (t ! 0) (t ! 1))"
  by (auto simp: basic_auth_of_def tuple_item_def split: sum.splits)

lemma ensure_session_sent: "sent (snd (ensure_session self w)) = sent w"
  by (simp add: ensure_session_def split: option.splits)

lemma ensure_session_Some: "\<exists>a. session (fst (ensure_session self w)) = Some a"
  by (cases "session self") (simp_all add: ensure_session_def)

lemma ensure_session_None:
  "session self = None \<Longrightarrow>
     ensure_session self w
       = (self\<lparr>session := Some (length (heap w))\<rparr>,
          w\<lparr>heap := heap w @ [\<lparr>timeout_total = 5, closed = False\<rparr>]\<rparr>)"
  by (simp add: ensure_session_def)

lemma ensure_session_idem: "session self \<noteq> None \<Longrightarrow> ensure_session self w = (self, w)"
  by (auto simp: ensure_session_def)

lemma request_rebinds:
  "rebinds_parameter kwargs \<Longrightarrow>
   request BasicAuth transport self w method url auth kwargs = (self, w, Inl TypeError)"
  by (simp add: request_def)

lemma request_auth_error:
  assumes "\<not> rebinds_parameter kwargs" and "basic_auth_of BasicAuth auth = Inl e"
  shows "request BasicAuth transport self w method url auth kwargs
           = (fst (ensure_session self w), snd (ensure_session self w), Inl e)"
  using assms by (simp add: request_def split: prod.splits)

lemma request_ok:
  assumes "\<not> rebinds_parameter kwargs"
    and "''ssl'' \<notin> set (map fst kwargs)"
    and "basic_auth_of BasicAuth auth = Inr ba"
    and "ensure_session self w = (self1, w1)"
    and "session self1 = Some a"
  shows "request BasicAuth transport self w method url auth kwargs =
          (let rq = \<lparr>req_session = a, req_method = method, req_url = url, req_auth = ba,
                     req_ssl = False, req_kwargs = kwargs\<rparr>
           in (self1, w1\<lparr>sent := sent w @ [rq]\<rparr>,
               map_sum id (\<lambda>(status, body). \<lparr>status_code = status, content = body\<rparr>) (transport w1 rq)))"
proof -
  have "sent w1 = sent w" using ensure_session_sent [of self w] assms(4) by simp
  with assms show ?thesis
    by (simp add: request_def Let_def split: sum.splits prod.splits)
qed

lemma request_state:
  "\<not> rebinds_parameter kwargs \<Longrightarrow>
   fst (request BasicAuth transport self w method url auth kwargs) = fst (ensure_session self w)
   \<and> heap (fst (snd (request BasicAuth transport self w method url auth kwargs)))
       = heap (snd (ensure_session self w))"
  by (simp add: request_def Let_def split: prod.splits sum.splits option.splits)

lemma request_sent:
  "sent (fst (snd (request BasicAuth transport self w method url auth kwargs))) = sent w
   \<or> (\<exists>rq. sent (fst (snd (request BasicAuth transport self w method url auth kwargs)))
              = sent w @ [rq]
            \<and> \<not> req_ssl rq
            \<and> Some (req_session rq) = session (fst (ensure_session self w)))"
proof -
  obtain self1 w1 where e: "ensure_session self w = (self1, w1)" by (cases "ensure_session self w")
  with ensure_session_sent [of self w] have "sent w1 = sent w" by simp
  with e show ?thesis
    by (simp add: request_def Let_def split: sum.splits option.splits prod.splits)
qed

lemma live_heap: "heap w' = heap w \<Longrightarrow> live n w' = live n w"
  by (simp add: live_def)

lemma single_handle_heap:
  "heap w' = heap w \<Longrightarrow> single_handle n self w' = single_handle n self w"
  by (simp add: single_handle_def live_def)

lemma single_handle_ensure_session:
  assumes "single_handle n self w"
  shows "single_handle n (fst (ensure_session self w)) (snd (ensure_session self w))"
proof (cases "session self")
  case (Some a)
  with assms show ?thesis by (simp add: ensure_session_def)
next
  case None
  from assms have n: "n \<le> length (heap w)" by (simp add: single_handle_def)
  from assms None have l: "live n w = []" by (simp add: single_handle_def)
  let ?h = "heap w @ [\<lparr>timeout_total = 5, closed = False\<rparr>]"
  have "filter (\<lambda>a. \<not> closed (?h ! a)) [n..<length (heap w)]
        = filter (\<lambda>a. \<not> closed (heap w ! a)) [n..<length (heap w)]"
    by (rule filter_cong) (simp_all add: nth_append)
  with l n have "filter (\<lambda>a. \<not> closed (?h ! a)) [n..<length ?h] = [length (heap w)]"
    by (simp add: live_def)
  with None n show ?thesis
    by (simp add: ensure_session_def single_handle_def live_def)
qed

lemma single_handle_close:
  assumes "single_handle n self w"
  shows "single_handle n (fst (close self w)) (snd (close self w))"
proof (cases "session self")
  case None
  with assms show ?thesis by (simp add: close_def)
next
  case (Some a)
  from assms have n: "n \<le> length (heap w)" by (simp add: single_handle_def)
  from assms Some have l: "live n w = [a]" by (simp add: single_handle_def)
  let ?h = "(heap w)[a := (heap w ! a)\<lparr>closed := True\<rparr>]"
  from l have "a \<in> set (live n w)" by simp
  then have a: "a < length (heap w)" by (simp add: live_def)
  have "filter (\<lambda>b. \<not> closed (?h ! b)) [n..<length (heap w)]
        = filter (\<lambda>b. b \<noteq> a) (filter (\<lambda>b. \<not> closed (heap w ! b)) [n..<length (heap w)])"
    unfolding filter_filter
    by (rule filter_cong) (use a in \<open>auto simp: nth_list_update\<close>)
  with l have "filter (\<lambda>b. \<not> closed (?h ! b)) [n..<length ?h] = []"
    by (simp add: live_def)
  with Some n show ?thesis
    by (simp add: close_def single_handle_def live_def)
qed

lemma single_handle_request:
  assumes "single_handle n self w"
  shows "single_handle n (fst (request BasicAuth transport self w m url auth kwargs))
           (fst (snd (request BasicAuth transport self w m url auth kwargs)))"
proof (cases "rebinds_parameter kwargs")
  case True
  with assms show ?thesis by (simp add: request_rebinds)
next
  case False
  let ?r = "request BasicAuth transport self w m url auth kwargs"
  from request_state [OF False, of BasicAuth transport self w m url auth]
  have s: "fst ?r = fst (ensure_session self w)"
    and h: "heap (fst (snd ?r)) = heap (snd (ensure_session self w))"
    by simp_all
  from single_handle_heap [OF h, of n "fst ?r"] single_handle_ensure_session [OF assms] s
  show ?thesis by simp
qed

lemma single_handle_step:
  assumes "single_handle n (fst st) (snd st)"
  shows "single_handle n (fst (step BasicAuth transport st c)) (snd (step BasicAuth transport st c))"
proof -
  obtain self w where st: "st = (self, w)" by (cases st)
  with assms have a: "single_handle n self w" by simp
  show ?thesis
  proof (cases c)
    case EnsureSession
    with st single_handle_ensure_session [OF a] show ?thesis by simp
  next
    case Close
    with st single_handle_close [OF a] show ?thesis by simp
  next
    case (Request m url auth kwargs)
    with st single_handle_request [OF a, of BasicAuth transport m url auth kwargs] show ?thesis
      by (cases "request BasicAuth transport self w m url auth kwargs") simp
  next
    case (Get url auth kwargs)
    with st single_handle_request [OF a, of BasicAuth transport "''GET''" url auth kwargs]
    show ?thesis
      by (cases "request BasicAuth transport self w ''GET'' url auth kwargs") (simp add: get_def)
  next
    case (Post url auth kwargs)
    with st single_handle_request [OF a, of BasicAuth transport "''POST''" url auth kwargs]
    show ?thesis
      by (cases "request BasicAuth transport self w ''POST'' url auth kwargs") (simp add: post_def)
  qed
qed

lemma single_handle_run:
  assumes "single_handle n (fst st) (snd st)"
  shows "single_handle n (fst (run BasicAuth transport st calls))
           (snd (run BasicAuth transport st calls))"
  using assms unfolding run_def
proof (induction calls arbitrary: st)
  case Nil
  then show ?case by simp
next
  case (Cons c calls)
  from Cons.IH [OF single_handle_step [OF Cons.prems]] show ?case by simp
qed

lemma single_handle_init: "single_handle (length (heap w)) HttpSession_init w"
  by (simp add: single_handle_def live_def HttpSession_init_def)

lemma single_handle_length: "single_handle n self w \<Longrightarrow> length (live n w) \<le> 1"
  by (simp add: single_handle_def split: option.splits)

lemma close_session: "session (fst (close self w)) = None"
  by (cases "session self") (simp_all add: close_def)

lemma close_None: "session self = None \<Longrightarrow> close self w = (self, w)"
  by (simp add: close_def)

lemma close_twice: "close (fst (close self w)) (snd (close self w)) = close self w"
  using close_None [OF close_session [of self w], of "snd (close self w)"] by simp

lemma request_session:
  "\<not> rebinds_parameter kwargs \<Longrightarrow>
   session (fst (request BasicAuth transport self w m url auth kwargs)) \<noteq> None"
  using request_state [of kwargs BasicAuth transport self w m url auth]
    ensure_session_Some [of self w]
  by auto

lemma request_after_close:
  assumes "\<not> rebinds_parameter kwargs"
  shows "session (fst (request BasicAuth transport (fst (close self w)) (snd (close self w))
                    m url auth kwargs))
           = Some (length (heap w))
         \<and> heap (fst (snd (request BasicAuth transport (fst (close self w)) (snd (close self w))
                    m url auth kwargs)))
           = heap (snd (close self w)) @ [\<lparr>timeout_total = 5, closed = False\<rparr>]"
proof -
  let ?s = "fst (close self w)" and ?w = "snd (close self w)"
  have l: "length (heap ?w) = length (heap w)"
    by (cases "session self") (simp_all add: close_def)
  have "ensure_session ?s ?w
          = (?s\<lparr>session := Some (length (heap ?w))\<rparr>,
             ?w\<lparr>heap := heap ?w @ [\<lparr>timeout_total = 5, closed = False\<rparr>]\<rparr>)"
    using close_session [of self w] by (simp add: ensure_session_def)
  with request_state [OF assms, of BasicAuth transport ?s ?w m url auth] l show ?thesis by simp
qed

text \<open>
  Claim C8: \<open>get\<close> and \<open>post\<close> return what \<open>request\<close> returns with the method
  fixed to \<^verbatim>\<open>"GET"\<close> and \<^verbatim>\<open>"POST"\<close>, for every URL and all keyword options.
\<close>

theorem get_post_alias:
  "get BasicAuth transport self w url auth kwargs
     = request BasicAuth transport self w ''GET'' url auth kwargs
   \<and> post BasicAuth transport self w url auth kwargs
     = request BasicAuth transport self w ''POST'' url auth kwargs"
  by (simp add: get_def post_def)

text \<open>
  Claim C10: with \<open>auth\<close> not \<^verbatim>\<open>None\<close>, \<open>request\<close> reads \<open>auth[0]\<close> and
  \<open>auth[1]\<close> before it calls the library: one of the two reads fails exactly when the
  tuple has fewer than two items, and then the translation, and a \<open>request\<close> whose
  arguments bind, end in an index error, after the session has been ensured and with no
  request sent. With two items or more both reads succeed and the outcome is the
  library's, for \<open>BasicAuth\<close> of the first two items.
\<close>

theorem auth_needs_two_items:
  "((tuple_item t 0 = Inl IndexError \<or> tuple_item t 1 = Inl IndexError) = (length t < 2))
   \<and> (length t < 2 \<longrightarrow> basic_auth_of BasicAuth (Some t) = Inl IndexError)
   \<and> (2 \<le> length t \<longrightarrow>
        basic_auth_of BasicAuth (Some t) = map_sum id Some (BasicAuth (t ! 0) (t ! 1)))
   \<and> (length t < 2 \<and> \<not> rebinds_parameter kwargs \<longrightarrow>
        request BasicAuth transport self w method url (Some t) kwargs
          = (fst (ensure_session self w), snd (ensure_session self w), Inl IndexError)
        \<and> sent (snd (ensure_session self w)) = sent w)"
proof (intro conjI impI)
  show "(tuple_item t 0 = Inl IndexError \<or> tuple_item t 1 = Inl IndexError) = (length t < 2)"
    by (rule tuple_items_fail)
next
  assume "length t < 2"
  then show "basic_auth_of BasicAuth (Some t) = Inl IndexError"
    by (rule basic_auth_of_short)
next
  assume "2 \<le> length t"
  then show "basic_auth_of BasicAuth (Some t) = map_sum id Some (BasicAuth (t ! 0) (t ! 1))"
    by (rule basic_auth_of_pair)
next
  assume a: "length t < 2 \<and> \<not> rebinds_parameter kwargs"
  then have "basic_auth_of BasicAuth (Some t) = Inl IndexError"
    by (simp add: basic_auth_of_short)
  with a request_auth_error [of kwargs BasicAuth "Some t" IndexError transport self w "method" url]
  show "request BasicAuth transport self w method url (Some t) kwargs
          = (fst (ensure_session self w), snd (ensure_session self w), Inl IndexError)"
    by simp
next
  show "sent (snd (ensure_session self w)) = sent w"
    by (rule ensure_session_sent)
qed

theorem auth_needs_two_items_witness:
  "basic_auth_of (\<lambda>login password. Inr (login, password)) (Some [''user'']) = Inl IndexError
   \<and> request (\<lambda>login password. Inr (login, password)) (\<lambda>w rq. Inr (200, []))
        HttpSession_init \<lparr>heap = [], sent = []\<rparr> ''GET'' ''https://example.com''
        (Some [''user'']) ([] :: (string \<times> unit) list)
      = (\<lparr>session = Some 0\<rparr>, \<lparr>heap = [\<lparr>timeout_total = 5, closed = False\<rparr>], sent = []\<rparr>,
         Inl IndexError)
   \<and> basic_auth_of (\<lambda>login password. Inr (login, password)) (Some [''user'', ''pw''])
      = Inr (Some (''user'', ''pw''))
   \<and> tuple_item [''user''] 1 = Inl IndexError"
proof -
  let ?B = "\<lambda>(login :: string) (password :: string). (Inr (login, password) :: py_error + string \<times> string)"
  let ?T = "\<lambda>(w :: (string \<times> string, unit) world) (rq :: (string \<times> string, unit) session_request).
              (Inr (200, []) :: py_error + int \<times> bytes)"
  let ?w = "\<lparr>heap = [], sent = []\<rparr> :: (string \<times> string, unit) world"
  have k: "\<not> rebinds_parameter ([] :: (string \<times> unit) list)"
    by (simp add: rebinds_parameter_def)
  from auth_needs_two_items [of "[''user'']" ?B "[] :: (string \<times> unit) list" ?T HttpSession_init ?w
      "''GET''" "''https://example.com''"] k
  have a: "basic_auth_of ?B (Some [''user'']) = Inl IndexError"
    and b: "request ?B ?T HttpSession_init ?w ''GET'' ''https://example.com'' (Some [''user'']) []
          = (fst (ensure_session HttpSession_init ?w), snd (ensure_session HttpSession_init ?w),
             Inl IndexError)"
    and c: "(tuple_item [''user''] 0 = Inl IndexError \<or> tuple_item [''user''] 1 = Inl IndexError)"
    by simp_all
  from auth_needs_two_items [of "[''user'', ''pw'']" ?B "[] :: (string \<times> unit) list" ?T
      HttpSession_init ?w "''GET''" "''https://example.com''"]
  have d: "basic_auth_of ?B (Some [''user'', ''pw'']) = Inr (Some (''user'', ''pw''))"
    by simp
  from c have e: "tuple_item [''user''] 1 = Inl IndexError" by (simp add: tuple_item_def)
  from b have b': "request ?B ?T HttpSession_init ?w ''GET'' ''https://example.com'' (Some [''user'']) []
      = (\<lparr>session = Some 0\<rparr>, \<lparr>heap = [\<lparr>timeout_total = 5, closed = False\<rparr>], sent = []\<rparr>,
         Inl IndexError)"
    by (simp add: ensure_session_def HttpSession_init_def)
  from a b' d e show ?thesis by blast
qed

text \<open>
  Claim C7: \<open>request\<close> first ensures a session (a new one, with a total timeout
  of 5 seconds, when the manager has none; nothing when it has one), then hands the
  library one request on that session with \<open>ssl\<close> false, with no credentials when
  \<open>auth\<close> is \<^verbatim>\<open>None\<close> and, when \<open>auth\<close> starts with a username and a password,
  with the credentials the library's \<open>BasicAuth\<close> makes of exactly these two, and
  wraps the status code and the body the library reports. This is for a call whose
  arguments bind and whose keyword options have no \<open>ssl\<close> of their own. When
  \<open>BasicAuth\<close> refuses the pair, the call ends in that exception. For every call,
  whatever is handed to the library has \<open>ssl\<close> false.
\<close>

theorem request_contract:
  fixes transport :: "('a, 'v) transport"
  shows
  "(session self = None \<longrightarrow>
      ensure_session self w
        = (self\<lparr>session := Some (length (heap w))\<rparr>,
           w\<lparr>heap := heap w @ [\<lparr>timeout_total = 5, closed = False\<rparr>]\<rparr>))
   \<and> (session self \<noteq> None \<longrightarrow> ensure_session self w = (self, w))
   \<and> (\<not> rebinds_parameter kwargs \<longrightarrow>
        fst (request BasicAuth transport self w method url auth kwargs) = fst (ensure_session self w)
        \<and> heap (fst (snd (request BasicAuth transport self w method url auth kwargs)))
            = heap (snd (ensure_session self w)))
   \<and> (\<exists>a. session (fst (ensure_session self w)) = Some a
        \<and> (\<not> rebinds_parameter kwargs \<and> ''ssl'' \<notin> set (map fst kwargs) \<longrightarrow>
             request BasicAuth transport self w method url None kwargs
               = (let rq = \<lparr>req_session = a, req_method = method, req_url = url, req_auth = None,
                            req_ssl = False, req_kwargs = kwargs\<rparr>
                  in (fst (ensure_session self w),
                      (snd (ensure_session self w))\<lparr>sent := sent w @ [rq]\<rparr>,
                      map_sum id (\<lambda>(status, body). \<lparr>status_code = status, content = body\<rparr>)
                        (transport (snd (ensure_session self w)) rq)))
           \<and> (\<forall>credentials. BasicAuth username password = Inr credentials \<longrightarrow>
                request BasicAuth transport self w method url (Some (username # password # rest)) kwargs
                  = (let rq = \<lparr>req_session = a, req_method = method, req_url = url,
                               req_auth = Some credentials,
                               req_ssl = False, req_kwargs = kwargs\<rparr>
                     in (fst (ensure_session self w),
                         (snd (ensure_session self w))\<lparr>sent := sent w @ [rq]\<rparr>,
                         map_sum id (\<lambda>(status, body). \<lparr>status_code = status, content = body\<rparr>)
                           (transport (snd (ensure_session self w)) rq))))))
   \<and> (\<forall>e. \<not> rebinds_parameter kwargs \<and> BasicAuth username password = Inl e \<longrightarrow>
          request BasicAuth transport self w method url (Some (username # password # rest)) kwargs
            = (fst (ensure_session self w), snd (ensure_session self w), Inl e))
   \<and> (sent (fst (snd (request BasicAuth transport self w method url auth kwargs))) = sent w
        \<or> (\<exists>rq. sent (fst (snd (request BasicAuth transport self w method url auth kwargs)))
                   = sent w @ [rq]
                 \<and> \<not> req_ssl rq))"
proof -
  obtain self1 w1 where e: "ensure_session self w = (self1, w1)" by (cases "ensure_session self w")
  from ensure_session_Some [of self w] e obtain a where a: "session self1 = Some a" by auto
  have n: "basic_auth_of BasicAuth None = Inr None" by (simp add: basic_auth_of_def)
  have p: "basic_auth_of BasicAuth (Some (username # password # rest))
             = map_sum id Some (BasicAuth username password)"
    using basic_auth_of_pair [of "username # password # rest" BasicAuth] by simp
  have c1: "session self = None \<longrightarrow>
      ensure_session self w
        = (self\<lparr>session := Some (length (heap w))\<rparr>,
           w\<lparr>heap := heap w @ [\<lparr>timeout_total = 5, closed = False\<rparr>]\<rparr>)"
    by (simp add: ensure_session_None)
  have c2: "session self \<noteq> None \<longrightarrow> ensure_session self w = (self, w)"
    using ensure_session_idem by blast
  have c3: "\<not> rebinds_parameter kwargs \<longrightarrow>
        fst (request BasicAuth transport self w method url auth kwargs) = fst (ensure_session self w)
        \<and> heap (fst (snd (request BasicAuth transport self w method url auth kwargs)))
            = heap (snd (ensure_session self w))"
    using request_state [of kwargs BasicAuth transport self w "method" url auth] by blast
  have c4a: "\<not> rebinds_parameter kwargs \<and> ''ssl'' \<notin> set (map fst kwargs) \<longrightarrow>
             request BasicAuth transport self w method url None kwargs
               = (let rq = \<lparr>req_session = a, req_method = method, req_url = url, req_auth = None,
                            req_ssl = False, req_kwargs = kwargs\<rparr>
                  in (fst (ensure_session self w),
                      (snd (ensure_session self w))\<lparr>sent := sent w @ [rq]\<rparr>,
                      map_sum id (\<lambda>(status, body). \<lparr>status_code = status, content = body\<rparr>)
                        (transport (snd (ensure_session self w)) rq)))"
  proof
    assume k: "\<not> rebinds_parameter kwargs \<and> ''ssl'' \<notin> set (map fst kwargs)"
    then have k1: "\<not> rebinds_parameter kwargs" and k2: "''ssl'' \<notin> set (map fst kwargs)"
      by simp_all
    from request_ok [OF k1 k2 n e a, of transport "method" url] e
    show "request BasicAuth transport self w method url None kwargs
               = (let rq = \<lparr>req_session = a, req_method = method, req_url = url, req_auth = None,
                            req_ssl = False, req_kwargs = kwargs\<rparr>
                  in (fst (ensure_session self w),
                      (snd (ensure_session self w))\<lparr>sent := sent w @ [rq]\<rparr>,
                      map_sum id (\<lambda>(status, body). \<lparr>status_code = status, content = body\<rparr>)
                        (transport (snd (ensure_session self w)) rq)))"
      by simp
  qed
  have c4b: "\<not> rebinds_parameter kwargs \<and> ''ssl'' \<notin> set (map fst kwargs) \<longrightarrow>
          (\<forall>credentials. BasicAuth username password = Inr credentials \<longrightarrow>
                request BasicAuth transport self w method url (Some (username # password # rest)) kwargs
                  = (let rq = \<lparr>req_session = a, req_method = method, req_url = url,
                               req_auth = Some credentials,
                               req_ssl = False, req_kwargs = kwargs\<rparr>
                     in (fst (ensure_session self w),
                         (snd (ensure_session self w))\<lparr>sent := sent w @ [rq]\<rparr>,
                         map_sum id (\<lambda>(status, body). \<lparr>status_code = status, content = body\<rparr>)
                           (transport (snd (ensure_session self w)) rq))))"
  proof (intro impI allI)
    fix credentials
    assume k: "\<not> rebinds_parameter kwargs \<and> ''ssl'' \<notin> set (map fst kwargs)"
      and b: "BasicAuth username password = Inr credentials"
    from k have k1: "\<not> rebinds_parameter kwargs" and k2: "''ssl'' \<notin> set (map fst kwargs)"
      by simp_all
    from p b have p': "basic_auth_of BasicAuth (Some (username # password # rest))
        = Inr (Some credentials)" by simp
    from request_ok [OF k1 k2 p' e a, of transport "method" url] e
    show "request BasicAuth transport self w method url (Some (username # password # rest)) kwargs
                  = (let rq = \<lparr>req_session = a, req_method = method, req_url = url,
                               req_auth = Some credentials,
                               req_ssl = False, req_kwargs = kwargs\<rparr>
                     in (fst (ensure_session self w),
                         (snd (ensure_session self w))\<lparr>sent := sent w @ [rq]\<rparr>,
                         map_sum id (\<lambda>(status, body). \<lparr>status_code = status, content = body\<rparr>)
                           (transport (snd (ensure_session self w)) rq)))"
      by simp
  qed
  have c5: "\<forall>e. \<not> rebinds_parameter kwargs \<and> BasicAuth username password = Inl e \<longrightarrow>
          request BasicAuth transport self w method url (Some (username # password # rest)) kwargs
            = (fst (ensure_session self w), snd (ensure_session self w), Inl e)"
  proof (intro allI impI)
    fix e'
    assume k: "\<not> rebinds_parameter kwargs \<and> BasicAuth username password = Inl e'"
    with p have "basic_auth_of BasicAuth (Some (username # password # rest)) = Inl e'" by simp
    with k request_auth_error [of kwargs BasicAuth "Some (username # password # rest)" e'
        transport self w "method" url]
    show "request BasicAuth transport self w method url (Some (username # password # rest)) kwargs
            = (fst (ensure_session self w), snd (ensure_session self w), Inl e')"
      by simp
  qed
  have c6: "sent (fst (snd (request BasicAuth transport self w method url auth kwargs))) = sent w
        \<or> (\<exists>rq. sent (fst (snd (request BasicAuth transport self w method url auth kwargs)))
                   = sent w @ [rq]
                 \<and> \<not> req_ssl rq)"
    using request_sent [of BasicAuth transport self w "method" url auth kwargs] by blast
  have s: "session (fst (ensure_session self w)) = Some a" using e a by simp
  from c1 c2 c3 s c4a c4b c5 c6 show ?thesis by blast
qed

theorem request_contract_witness:
  "(let BasicAuth = (\<lambda>login password. if CHR '':'' \<in> set login
                       then Inl (LibraryError ''ValueError'') else Inr (login, password));
        transport = (\<lambda>w rq. Inr (200, bytes_lit ''hello''))
    in request BasicAuth transport HttpSession_init \<lparr>heap = [], sent = []\<rparr>
          ''POST'' ''https://example.com/a'' (Some [''user'', ''secret'']) [(''headers'', ())]
        = (\<lparr>session = Some 0\<rparr>,
           \<lparr>heap = [\<lparr>timeout_total = 5, closed = False\<rparr>],
            sent = [\<lparr>req_session = 0, req_method = ''POST'', req_url = ''https://example.com/a'',
                     req_auth = Some (''user'', ''secret''), req_ssl = False,
                     req_kwargs = [(''headers'', ())]\<rparr>]\<rparr>,
           Inr \<lparr>status_code = 200, content = bytes_lit ''hello''\<rparr>)
       \<and> request BasicAuth transport HttpSession_init \<lparr>heap = [], sent = []\<rparr>
          ''POST'' ''https://example.com/a'' None [(''headers'', ())]
        = (\<lparr>session = Some 0\<rparr>,
           \<lparr>heap = [\<lparr>timeout_total = 5, closed = False\<rparr>],
            sent = [\<lparr>req_session = 0, req_method = ''POST'', req_url = ''https://example.com/a'',
                     req_auth = None, req_ssl = False,
                     req_kwargs = [(''headers'', ())]\<rparr>]\<rparr>,
           Inr \<lparr>status_code = 200, content = bytes_lit ''hello''\<rparr>)
       \<and> request BasicAuth transport HttpSession_init \<lparr>heap = [], sent = []\<rparr>
          ''POST'' ''https://example.com/a'' (Some [''a:b'', ''secret'']) [(''headers'', ())]
        = (\<lparr>session = Some 0\<rparr>,
           \<lparr>heap = [\<lparr>timeout_total = 5, closed = False\<rparr>], sent = []\<rparr>,
           Inl (LibraryError ''ValueError'')))"
proof -
  let ?B = "\<lambda>(login :: string) (password :: string). if CHR '':'' \<in> set login
              then Inl (LibraryError ''ValueError'')
              else (Inr (login, password) :: py_error + string \<times> string)"
  let ?T = "\<lambda>(w :: (string \<times> string, unit) world) (rq :: (string \<times> string, unit) session_request).
              (Inr (200, bytes_lit ''hello'') :: py_error + int \<times> bytes)"
  let ?w = "\<lparr>heap = [], sent = []\<rparr> :: (string \<times> string, unit) world"
  let ?k = "[(''headers'', ())] :: (string \<times> unit) list"
  have k: "\<not> rebinds_parameter ?k \<and> ''ssl'' \<notin> set (map fst ?k)"
    by (simp add: rebinds_parameter_def)
  have ens: "ensure_session HttpSession_init ?w
      = (\<lparr>session = Some 0\<rparr>, \<lparr>heap = [\<lparr>timeout_total = 5, closed = False\<rparr>], sent = []\<rparr>)"
    by (simp add: ensure_session_def HttpSession_init_def)
  have b1: "?B ''user'' ''secret'' = Inr (''user'', ''secret'')" by simp
  have b2: "?B ''a:b'' ''secret'' = Inl (LibraryError ''ValueError'')" by simp
  note r1 = request_contract [of HttpSession_init ?w ?k ?B ?T "''POST''" "''https://example.com/a''"
      None "''user''" "''secret''" "[]"]
  note r2 = request_contract [of HttpSession_init ?w ?k ?B ?T "''POST''" "''https://example.com/a''"
      None "''a:b''" "''secret''" "[]"]
  from r1 k b1 ens
  have x: "request ?B ?T HttpSession_init ?w ''POST'' ''https://example.com/a''
             (Some [''user'', ''secret'']) ?k
        = (\<lparr>session = Some 0\<rparr>,
           \<lparr>heap = [\<lparr>timeout_total = 5, closed = False\<rparr>],
            sent = [\<lparr>req_session = 0, req_method = ''POST'', req_url = ''https://example.com/a'',
                     req_auth = Some (''user'', ''secret''), req_ssl = False,
                     req_kwargs = ?k\<rparr>]\<rparr>,
           Inr \<lparr>status_code = 200, content = bytes_lit ''hello''\<rparr>)"
    by (simp add: Let_def)
  from r1 k ens
  have y: "request ?B ?T HttpSession_init ?w ''POST'' ''https://example.com/a'' None ?k
        = (\<lparr>session = Some 0\<rparr>,
           \<lparr>heap = [\<lparr>timeout_total = 5, closed = False\<rparr>],
            sent = [\<lparr>req_session = 0, req_method = ''POST'', req_url = ''https://example.com/a'',
                     req_auth = None, req_ssl = False,
                     req_kwargs = ?k\<rparr>]\<rparr>,
           Inr \<lparr>status_code = 200, content = bytes_lit ''hello''\<rparr>)"
    by (simp add: Let_def)
  from r2 k b2 ens
  have z: "request ?B ?T HttpSession_init ?w ''POST'' ''https://example.com/a''
             (Some [''a:b'', ''secret'']) ?k
        = (\<lparr>session = Some 0\<rparr>,
           \<lparr>heap = [\<lparr>timeout_total = 5, closed = False\<rparr>], sent = []\<rparr>,
           Inl (LibraryError ''ValueError''))"
    by simp
  from x y z show ?thesis unfolding Let_def by blast
qed

section \<open>The session manager: states\<close>

text \<open>
  Claim C6: the manager starts without a session; after \<open>ensure_session\<close> and after
  a \<open>request\<close> whose arguments bind it has one; after \<open>close\<close> it has none, and
  \<open>close\<close> without a session changes nothing, so that a second \<open>close\<close> in a row
  is a no-op; a \<open>request\<close> after \<open>close\<close> creates a new session; and after any
  sequence of calls on a new manager the live handles it has created are the one it
  refers to, or none: never more than one. A call of \<open>request\<close> whose arguments do
  not bind never enters \<open>request\<close> and leaves the manager as it was.
\<close>

theorem session_state_machine:
  fixes transport :: "('a, 'v) transport"
  shows
  "session HttpSession_init = None
   \<and> session (fst (ensure_session self w)) \<noteq> None
   \<and> (\<not> rebinds_parameter kwargs \<longrightarrow>
        session (fst (request BasicAuth transport self w method url auth kwargs)) \<noteq> None)
   \<and> (rebinds_parameter kwargs \<longrightarrow>
        request BasicAuth transport self w method url auth kwargs = (self, w, Inl TypeError))
   \<and> session (fst (close self w)) = None
   \<and> (session self = None \<longrightarrow> close self w = (self, w))
   \<and> close (fst (close self w)) (snd (close self w)) = close self w
   \<and> (\<not> rebinds_parameter kwargs \<longrightarrow>
        session (fst (request BasicAuth transport (fst (close self w)) (snd (close self w))
                   method url auth kwargs))
          = Some (length (heap w))
        \<and> heap (fst (snd (request BasicAuth transport (fst (close self w)) (snd (close self w))
                   method url auth kwargs)))
          = heap (snd (close self w)) @ [\<lparr>timeout_total = 5, closed = False\<rparr>])
   \<and> live (length (heap w)) (snd (run BasicAuth transport (HttpSession_init, w) calls))
       = (case session (fst (run BasicAuth transport (HttpSession_init, w) calls)) of
            None \<Rightarrow> [] | Some a \<Rightarrow> [a])
   \<and> length (live (length (heap w)) (snd (run BasicAuth transport (HttpSession_init, w) calls))) \<le> 1"
proof -
  have inv: "single_handle (length (heap w))
               (fst (run BasicAuth transport (HttpSession_init, w) calls))
               (snd (run BasicAuth transport (HttpSession_init, w) calls))"
    using single_handle_run [of "length (heap w)" "(HttpSession_init, w)" BasicAuth transport calls]
      single_handle_init [of w]
    by simp
  have c1: "session HttpSession_init = None" by (simp add: HttpSession_init_def)
  have c2: "session (fst (ensure_session self w)) \<noteq> None"
    using ensure_session_Some [of self w] by auto
  have c3: "\<not> rebinds_parameter kwargs \<longrightarrow>
        session (fst (request BasicAuth transport self w method url auth kwargs)) \<noteq> None"
    using request_session [of kwargs BasicAuth transport self w "method" url auth] by blast
  have c4: "rebinds_parameter kwargs \<longrightarrow>
        request BasicAuth transport self w method url auth kwargs = (self, w, Inl TypeError)"
    using request_rebinds [of kwargs BasicAuth transport self w "method" url auth] by blast
  note c5 = close_session [of self w]
  have c6: "session self = None \<longrightarrow> close self w = (self, w)"
    using close_None by blast
  note c7 = close_twice [of self w]
  have c8: "\<not> rebinds_parameter kwargs \<longrightarrow>
        session (fst (request BasicAuth transport (fst (close self w)) (snd (close self w))
                   method url auth kwargs))
          = Some (length (heap w))
        \<and> heap (fst (snd (request BasicAuth transport (fst (close self w)) (snd (close self w))
                   method url auth kwargs)))
          = heap (snd (close self w)) @ [\<lparr>timeout_total = 5, closed = False\<rparr>]"
    using request_after_close [of kwargs BasicAuth transport self w "method" url auth] by blast
  from inv have c9: "live (length (heap w)) (snd (run BasicAuth transport (HttpSession_init, w) calls))
       = (case session (fst (run BasicAuth transport (HttpSession_init, w) calls)) of
            None \<Rightarrow> [] | Some a \<Rightarrow> [a])"
    by (simp add: single_handle_def)
  note c10 = single_handle_length [OF inv]
  from c1 c2 c3 c4 c5 c6 c7 c8 c9 c10 show ?thesis by blast
qed

theorem session_state_machine_witness:
  "(let BasicAuth = (\<lambda>login password. Inr (login, password));
        transport = (\<lambda>w rq. Inr (200, []));
        calls = [Request ''GET'' ''https://example.com'' None ([] :: (string \<times> unit) list), Close, Close,
                 Get ''https://example.com'' None [], Request ''GET'' ''https://example.com'' None [(''method'', ())]]
    in run BasicAuth transport (HttpSession_init, \<lparr>heap = [], sent = []\<rparr>) calls
        = (\<lparr>session = Some 1\<rparr>,
           \<lparr>heap = [\<lparr>timeout_total = 5, closed = True\<rparr>, \<lparr>timeout_total = 5, closed = False\<rparr>],
            sent = [\<lparr>req_session = 0, req_method = ''GET'', req_url = ''https://example.com'',
                     req_auth = None :: (string \<times> string) option, req_ssl = False, req_kwargs = []\<rparr>,
                    \<lparr>req_session = 1, req_method = ''GET'', req_url = ''https://example.com'',
                     req_auth = None, req_ssl = False, req_kwargs = []\<rparr>]\<rparr>)
       \<and> live 0 (snd (run BasicAuth transport (HttpSession_init, \<lparr>heap = [], sent = []\<rparr>) calls)) = [1]
       \<and> close HttpSession_init (\<lparr>heap = [], sent = []\<rparr> :: (string \<times> string, unit) world)
           = (HttpSession_init, \<lparr>heap = [], sent = []\<rparr>)
       \<and> session (fst (request BasicAuth transport HttpSession_init \<lparr>heap = [], sent = []\<rparr>
             ''GET'' ''https://example.com'' None [])) \<noteq> None
       \<and> request BasicAuth transport HttpSession_init \<lparr>heap = [], sent = []\<rparr>
             ''GET'' ''https://example.com'' None [(''method'', ())]
           = (HttpSession_init, \<lparr>heap = [], sent = []\<rparr>, Inl TypeError))"
proof -
  let ?B = "\<lambda>(login :: string) (password :: string). (Inr (login, password) :: py_error + string \<times> string)"
  let ?t = "\<lambda>(w :: (string \<times> string, unit) world) (rq :: (string \<times> string, unit) session_request).
              (Inr (200, []) :: py_error + int \<times> bytes)"
  let ?w = "\<lparr>heap = [], sent = []\<rparr> :: (string \<times> string, unit) world"
  let ?calls = "[Request ''GET'' ''https://example.com'' None ([] :: (string \<times> unit) list), Close, Close,
       Get ''https://example.com'' None [], Request ''GET'' ''https://example.com'' None [(''method'', ())]]"
  have r: "run ?B ?t (HttpSession_init, ?w) ?calls
    = (\<lparr>session = Some 1\<rparr>,
       \<lparr>heap = [\<lparr>timeout_total = 5, closed = True\<rparr>, \<lparr>timeout_total = 5, closed = False\<rparr>],
        sent = [\<lparr>req_session = 0, req_method = ''GET'', req_url = ''https://example.com'',
                 req_auth = None, req_ssl = False, req_kwargs = []\<rparr>,
                \<lparr>req_session = 1, req_method = ''GET'', req_url = ''https://example.com'',
                 req_auth = None, req_ssl = False, req_kwargs = []\<rparr>]\<rparr>)"
    by (simp add: run_def get_def request_def ensure_session_def close_def HttpSession_init_def
        basic_auth_of_def rebinds_parameter_def Let_def)
  have k1: "\<not> rebinds_parameter ([] :: (string \<times> unit) list)"
    and k2: "rebinds_parameter [(''method'', ())]"
    by (simp_all add: rebinds_parameter_def)
  note m1 = session_state_machine [of HttpSession_init ?w "[] :: (string \<times> unit) list" ?B ?t
      "''GET''" "''https://example.com''" None ?calls]
  note m2 = session_state_machine [of HttpSession_init ?w "[(''method'', ())]" ?B ?t
      "''GET''" "''https://example.com''" None ?calls]
  from m1 k1
  have a: "live (length (heap ?w)) (snd (run ?B ?t (HttpSession_init, ?w) ?calls))
       = (case session (fst (run ?B ?t (HttpSession_init, ?w) ?calls)) of None \<Rightarrow> [] | Some a \<Rightarrow> [a])"
    and b: "session HttpSession_init = None \<longrightarrow> close HttpSession_init ?w = (HttpSession_init, ?w)"
    and c: "session HttpSession_init = None"
    and d: "session (fst (request ?B ?t HttpSession_init ?w ''GET'' ''https://example.com'' None []))
              \<noteq> None"
    by blast+
  from m2 k2
  have e: "request ?B ?t HttpSession_init ?w ''GET'' ''https://example.com'' None [(''method'', ())]
             = (HttpSession_init, ?w, Inl TypeError)"
    by blast
  from a r have a': "live 0 (snd (run ?B ?t (HttpSession_init, ?w) ?calls)) = [1]" by simp
  from b c have b': "close HttpSession_init ?w = (HttpSession_init, ?w)" by blast
  from r a' b' d e show ?thesis unfolding Let_def by blast
qed

end
